theory Spec2Isabelle
  imports Main "HOL-Library.AList"
begin

section \<open>Constants and data model of the game\<close>

text \<open>
  The two source variants (\<^verbatim>\<open>src/game.js\<close> and the older
  \<^verbatim>\<open>src/unnamed/part_000\<close>) share the constants, the scoring function and the
  keyboard hint aggregator verbatim. They differ in \<^verbatim>\<open>submitGuess\<close> (the newer
  variant has a developer-mode branch) and in UI effects (sound, animation), which
  do not touch the game state.
\<close>

definition MAX_ROWS :: nat where
  "MAX_ROWS = 6"

definition WORD_LENGTH :: nat where
  "WORD_LENGTH = 5"

text \<open>
  The per-letter evaluations the state stores are the JavaScript strings
  \<^verbatim>\<open>'empty'\<close>, \<^verbatim>\<open>'absent'\<close>, \<^verbatim>\<open>'present'\<close> and \<^verbatim>\<open>'correct'\<close>.
\<close>

datatype evaluation = Empty | Absent | Present | Correct

section \<open>Scoring engine\<close>

subsection \<open>JavaScript values used by the scoring function\<close>

text \<open>
  \<^verbatim>\<open>remainingCounts\<close> is a plain object. A property is read with a key that is
  either a one-character string or, when \<^verbatim>\<open>guess[i]\<close> is out of range, the value
  \<^verbatim>\<open>undefined\<close> (the property named "undefined"); the key type is therefore
  \<open>char option\<close>. A property holds a number or \<^verbatim>\<open>NaN\<close>; a missing property
  reads as \<^verbatim>\<open>undefined\<close>, modelled by \<open>None\<close> (no property that the object
  inherits from \<^verbatim>\<open>Object.prototype\<close> has a one-character name or the name
  "undefined"). Strings are lists of 8-bit characters; for the letters of the game
  an index of the string and an element of \<^verbatim>\<open>[...word]\<close> are the same thing.
\<close>

datatype jsnum = Num int | NaN

type_synonym counts = "char option \<Rightarrow> jsnum option"

text \<open>\<^verbatim>\<open>word[i]\<close>: the character at index \<open>i\<close>, \<^verbatim>\<open>undefined\<close> out of range.\<close>

definition charAt :: "string \<Rightarrow> nat \<Rightarrow> char option" where
  "charAt word i = (if i < length word then Some (word ! i) else None)"

text \<open>\<^verbatim>\<open>v || 0\<close> for a property value \<open>v\<close>: \<^verbatim>\<open>undefined\<close>, \<^verbatim>\<open>NaN\<close> and \<open>0\<close> are falsy.\<close>

fun or_zero :: "jsnum option \<Rightarrow> int" where
  "or_zero (Some (Num n)) = n"
| "or_zero (Some NaN) = 0"
| "or_zero None = 0"

text \<open>\<^verbatim>\<open>v - 1\<close>: \<^verbatim>\<open>undefined - 1\<close> and \<^verbatim>\<open>NaN - 1\<close> are \<^verbatim>\<open>NaN\<close>.\<close>

fun minus_one :: "jsnum option \<Rightarrow> jsnum" where
  "minus_one (Some (Num n)) = Num (n - 1)"
| "minus_one (Some NaN) = NaN"
| "minus_one None = NaN"

text \<open>\<^verbatim>\<open>v > 0\<close>: false for \<^verbatim>\<open>undefined\<close> and \<^verbatim>\<open>NaN\<close>.\<close>

fun greater_zero :: "jsnum option \<Rightarrow> bool" where
  "greater_zero (Some (Num n)) = (0 < n)"
| "greater_zero (Some NaN) = False"
| "greater_zero None = False"

subsection \<open>The source functions\<close>

text \<open>
  \<^verbatim>\<open>
  function getLetterCounts(word) {
    return [...word].reduce((acc, letter) => {
      acc[letter] = (acc[letter] || 0) + 1;
      return acc;
    }, {});
  }
  \<close>
\<close>

definition getLetterCounts :: "string \<Rightarrow> counts" where
  "getLetterCounts word =
     foldl (\<lambda>acc letter. acc(Some letter \<mapsto> Num (or_zero (acc (Some letter)) + 1)))
       Map.empty word"

text \<open>
  The body of the first loop of \<^verbatim>\<open>scoreGuess\<close> at index \<open>i\<close>:
  \<^verbatim>\<open>
    if (guess[i] === answer[i]) {
      result[i] = 'correct';
      remainingCounts[guess[i]] -= 1;
    }
  \<close>
\<close>

definition pass1_step ::
  "string \<Rightarrow> string \<Rightarrow> nat \<Rightarrow> evaluation list \<times> counts \<Rightarrow> evaluation list \<times> counts" where
  "pass1_step guess answer i = (\<lambda>(result, remainingCounts).
     if charAt guess i = charAt answer i
     then (result[i := Correct],
           remainingCounts(charAt guess i \<mapsto> minus_one (remainingCounts (charAt guess i))))
     else (result, remainingCounts))"

text \<open>
  The body of the second loop at index \<open>i\<close>:
  \<^verbatim>\<open>
    if (result[i] === 'correct') { continue; }
    const letter = guess[i];
    if (remainingCounts[letter] > 0) {
      result[i] = 'present';
      remainingCounts[letter] -= 1;
    }
  \<close>
\<close>

definition pass2_step ::
  "string \<Rightarrow> nat \<Rightarrow> evaluation list \<times> counts \<Rightarrow> evaluation list \<times> counts" where
  "pass2_step guess i = (\<lambda>(result, remainingCounts).
     if result ! i = Correct then (result, remainingCounts)
     else let letter = charAt guess i in
       if greater_zero (remainingCounts letter)
       then (result[i := Present],
             remainingCounts(letter \<mapsto> minus_one (remainingCounts letter)))
       else (result, remainingCounts))"

text \<open>
  \<^verbatim>\<open>scoreGuess(guess, answer)\<close>. Both loops run over the indices
  \<open>0, \<dots>, WORD_LENGTH - 1\<close> of an array of length \<open>WORD_LENGTH\<close>, so every read
  and write of \<open>result\<close> is in range. No operation of the function can throw on
  string arguments, hence the plain result type.
\<close>

definition scoreGuess :: "string \<Rightarrow> string \<Rightarrow> evaluation list" where
  "scoreGuess guess answer =
     (let result = replicate WORD_LENGTH Absent;
          remainingCounts = getLetterCounts answer;
          st1 = fold (pass1_step guess answer) [0..<WORD_LENGTH] (result, remainingCounts);
          st2 = fold (pass2_step guess) [0..<WORD_LENGTH] st1
      in fst st2)"

subsection \<open>The scoring contract in the words of the specification\<close>

text \<open>
  The specification describes the algorithm in three steps: (1) build a multiset
  of letter to remaining count from the answer; (2) pass 1: for each position
  where the guess letter equals the answer letter, mark \<open>correct\<close> and decrement
  that letter's remaining count; (3) pass 2: for each position not already
  \<open>correct\<close>, from left to right, if the letter's remaining count is positive, mark
  \<open>present\<close> and decrement, otherwise mark \<open>absent\<close>. The definitions below follow
  these words (and not the source); the remaining counts are a function from
  letters to natural numbers.
\<close>

definition decrement :: "(char \<Rightarrow> nat) \<Rightarrow> char \<Rightarrow> (char \<Rightarrow> nat)" where
  "decrement remaining g = remaining(g := remaining g - 1)"

fun spec_pass1 :: "string \<Rightarrow> string \<Rightarrow> (char \<Rightarrow> nat) \<Rightarrow> (char \<Rightarrow> nat)" where
  "spec_pass1 (g # gs) (a # as) remaining =
     spec_pass1 gs as (if g = a then decrement remaining g else remaining)"
| "spec_pass1 _ _ remaining = remaining"

fun spec_pass2 :: "string \<Rightarrow> string \<Rightarrow> (char \<Rightarrow> nat) \<Rightarrow> evaluation list" where
  "spec_pass2 (g # gs) (a # as) remaining =
     (if g = a then Correct # spec_pass2 gs as remaining
      else if 0 < remaining g then Present # spec_pass2 gs as (decrement remaining g)
      else Absent # spec_pass2 gs as remaining)"
| "spec_pass2 _ _ remaining = []"

definition spec_score :: "string \<Rightarrow> string \<Rightarrow> evaluation list" where
  "spec_score guess answer =
     spec_pass2 guess answer (spec_pass1 guess answer (count_list answer))"

text \<open>Auxiliary notions for the proofs about the two passes.\<close>

text \<open>The remaining counts after pass 2 has processed a prefix.\<close>

fun spec_pass2_counts :: "string \<Rightarrow> string \<Rightarrow> (char \<Rightarrow> nat) \<Rightarrow> (char \<Rightarrow> nat)" where
  "spec_pass2_counts (g # gs) (a # as) remaining =
     (if g = a then spec_pass2_counts gs as remaining
      else if 0 < remaining g then spec_pass2_counts gs as (decrement remaining g)
      else spec_pass2_counts gs as remaining)"
| "spec_pass2_counts _ _ remaining = remaining"

text \<open>The contents of \<open>result\<close> after the first loop.\<close>

definition exact_marks :: "string \<Rightarrow> string \<Rightarrow> evaluation list" where
  "exact_marks gs as = map (\<lambda>(g, a). if g = a then Correct else Absent) (zip gs as)"

text \<open>
  How the JavaScript object \<^verbatim>\<open>remainingCounts\<close> represents the remaining counts
  of the specification.
\<close>

definition counts_rel :: "counts \<Rightarrow> (char \<Rightarrow> nat) \<Rightarrow> bool" where
  "counts_rel rc M \<longleftrightarrow>
     (\<forall>c. (0 < M c \<longrightarrow> rc (Some c) = Some (Num (int (M c)))) \<and>
          (M c = 0 \<longrightarrow> \<not> greater_zero (rc (Some c))))"

text \<open>
  The number of positions of a scored guess that hold the letter \<open>L\<close> and are
  marked \<open>present\<close> or \<open>correct\<close>, and the number of positions where guess and
  answer both hold \<open>L\<close>.
\<close>

definition marked_count :: "char \<Rightarrow> string \<Rightarrow> evaluation list \<Rightarrow> nat" where
  "marked_count L guess result =
     length (filter (\<lambda>(g, e). g = L \<and> (e = Present \<or> e = Correct)) (zip guess result))"

definition exact_count :: "char \<Rightarrow> string \<Rightarrow> string \<Rightarrow> nat" where
  "exact_count L guess answer =
     length (filter (\<lambda>(g, a). g = L \<and> g = a) (zip guess answer))"

section \<open>Keyboard hint aggregator\<close>

text \<open>
  \<^verbatim>\<open>const statePriority = { absent: 1, present: 2, correct: 3 };\<close>
  The lookup of any other evaluation is \<^verbatim>\<open>undefined\<close>.
\<close>

fun statePriority :: "evaluation \<Rightarrow> nat option" where
  "statePriority Absent = Some 1"
| "statePriority Present = Some 2"
| "statePriority Correct = Some 3"
| "statePriority Empty = None"

text \<open>\<^verbatim>\<open>a > b\<close> on priorities: false as soon as one side is \<^verbatim>\<open>undefined\<close>.\<close>

fun priority_greater :: "nat option \<Rightarrow> nat option \<Rightarrow> bool" where
  "priority_greater (Some a) (Some b) = (b < a)"
| "priority_greater _ _ = False"

text \<open>
  \<^verbatim>\<open>toLowerCase()\<close> and \<^verbatim>\<open>toUpperCase()\<close> on a key or on the letters of a
  guess: the conversion of the ASCII letters, which are the only letters the game
  stores and the only characters the comparisons with \<^verbatim>\<open>'backspace'\<close> and
  \<^verbatim>\<open>'enter'\<close> depend on.
\<close>

definition toLowerCase_char :: "char \<Rightarrow> char" where
  "toLowerCase_char c =
     (case map_of (zip ''ABCDEFGHIJKLMNOPQRSTUVWXYZ'' ''abcdefghijklmnopqrstuvwxyz'') c of
        Some l \<Rightarrow> l | None \<Rightarrow> c)"

definition toUpperCase_char :: "char \<Rightarrow> char" where
  "toUpperCase_char c =
     (case map_of (zip ''abcdefghijklmnopqrstuvwxyz'' ''ABCDEFGHIJKLMNOPQRSTUVWXYZ'') c of
        Some u \<Rightarrow> u | None \<Rightarrow> c)"

definition toLowerCase :: "string \<Rightarrow> string" where
  "toLowerCase = map toLowerCase_char"

definition toUpperCase :: "string \<Rightarrow> string" where
  "toUpperCase = map toUpperCase_char"

text \<open>
  \<^verbatim>\<open>state.keyStates\<close> is an object from lower-case letters to evaluations. It is
  modelled as an association list in insertion order, which is the order in which
  JavaScript keeps (and serialises) the properties: assigning to an existing key
  keeps its place, a new key goes to the end (\<open>AList.update\<close>).

  The callback of \<^verbatim>\<open>guessLetters.forEach\<close>:
  \<^verbatim>\<open>
    const newState = scoredStates[index];
    const keyLetter = letter.toLowerCase();
    const currentState = state.keyStates[keyLetter];
    if (!currentState || statePriority[newState] > statePriority[currentState]) {
      state.keyStates[keyLetter] = newState;
    }
  \<close>
  When \<open>index\<close> is out of the range of \<open>scoredStates\<close>, \<open>newState\<close> is
  \<^verbatim>\<open>undefined\<close>: the comparison is false, and for a letter without a hint the
  assignment stores \<^verbatim>\<open>undefined\<close>, which reads back exactly like a missing key
  and which \<^verbatim>\<open>JSON.stringify\<close> leaves out; the model leaves the list
  unchanged in that case. The one trace the program keeps and the model does not
  is the place of that key in the property order, should the letter get a hint
  later. \<^verbatim>\<open>submitGuess\<close>, the only caller, passes a guess and its
  evaluations, which have the same length.
\<close>

definition hint_step ::
  "evaluation list \<Rightarrow> nat \<times> char \<Rightarrow> (char \<times> evaluation) list \<Rightarrow> (char \<times> evaluation) list" where
  "hint_step scoredStates = (\<lambda>(index, letter) keyStates.
     let newState = (if index < length scoredStates then Some (scoredStates ! index) else None);
         keyLetter = toLowerCase_char letter;
         currentState = map_of keyStates keyLetter
     in if currentState = None \<or>
           priority_greater (Option.bind newState statePriority) (Option.bind currentState statePriority)
        then (case newState of Some e \<Rightarrow> AList.update keyLetter e keyStates | None \<Rightarrow> keyStates)
        else keyStates)"

section \<open>Game state machine\<close>

text \<open>
  The object \<^verbatim>\<open>createNewState\<close> builds. A cell of \<open>guesses\<close> is a string, empty
  or one letter. A row of \<open>evaluations\<close> is an array of evaluations, or \<open>None\<close>
  for a hole of the array, which a write past its end leaves behind and which
  reads as \<^verbatim>\<open>undefined\<close>. The older variant has no \<open>developerMode\<close> field; its
  functions never read or write the field of the model.
\<close>

datatype status = Active | Won | Lost

record state =
  answer :: string
  guesses :: "string list list"
  evaluations :: "evaluation list option list"
  currentRow :: nat
  currentCol :: nat
  status :: status
  keyStates :: "(char \<times> evaluation) list"
  developerMode :: bool

text \<open>
  The texts that \<^verbatim>\<open>setStatus\<close> writes into the status element:
  \<^item> \<open>GuessIn6Tries\<close>: "Guess the Wordle in 6 tries."
  \<^item> \<open>RestoredYourGame\<close>: "Restored your game."
  \<^item> \<open>RestoredCompletedGame\<close>: "Restored completed game."
  \<^item> \<open>NotEnoughLetters\<close>: "Not enough letters."
  \<^item> \<open>WordNotInList\<close>: "Word is not in the list."
  \<^item> \<open>YouGotIt\<close>: "You got it!" (followed by an emoji)
  \<^item> \<open>GameOver w\<close>: "Game over. The word was \<open>w\<close>."
  \<^item> \<open>NoMessage\<close>: the empty text
  \<^item> \<open>WelcomeDeveloper\<close>: "Welcome developer."
  \<^item> \<open>DeveloperModeDisabled\<close>: "Developer mode disabled."
\<close>

datatype message =
    GuessIn6Tries | RestoredYourGame | RestoredCompletedGame
  | NotEnoughLetters | WordNotInList | YouGotIt | GameOver string | NoMessage
  | WelcomeDeveloper | DeveloperModeDisabled

text \<open>
  The mutable globals the state machine works on: the module-level \<^verbatim>\<open>state\<close>
  and the text of the status element. Rendering, sound and animation read the
  state without changing it; of these only \<^verbatim>\<open>render()\<close> can fail on the state,
  and that failure is modelled (\<open>render\<close> below).
\<close>

record page =
  state :: state
  statusEl :: message

text \<open>
  An event handler either returns or throws; either way the mutations made so
  far stay in the globals, so a handler yields a completion and a page.
\<close>

datatype js_error = TypeError

datatype completion = Normal | Throw js_error

text \<open>\<^verbatim>\<open>updateKeyboardStates(guessLetters, scoredStates)\<close>\<close>

definition updateKeyboardStates :: "char list \<Rightarrow> evaluation list \<Rightarrow> state \<Rightarrow> state" where
  "updateKeyboardStates guessLetters scoredStates s =
     s\<lparr>keyStates := fold (hint_step scoredStates) (enumerate 0 guessLetters) (keyStates s)\<rparr>"

text \<open>
  \<^verbatim>\<open>createNewState(answerOverride = getRandomAnswer())\<close>; the answer comes from
  the word source, which is a parameter here.
\<close>

definition createNewState :: "string \<Rightarrow> state" where
  "createNewState answerOverride =
     \<lparr>answer = answerOverride,
      guesses = replicate MAX_ROWS (replicate WORD_LENGTH []),
      evaluations = replicate MAX_ROWS (Some (replicate WORD_LENGTH Empty)),
      currentRow = 0,
      currentCol = 0,
      status = Active,
      keyStates = [],
      developerMode = False\<rparr>"

text \<open>
  \<^verbatim>\<open>xs[i] = v\<close> on a JavaScript array: in range it overwrites, out of range the
  array grows and the skipped indices are holes. \<open>hole\<close> is what a hole is
  modelled by: the empty string in a row of letters, which is how
  \<^verbatim>\<open>join('')\<close> reads a hole, and \<open>None\<close> in \<open>evaluations\<close>. The array
  \<open>guesses\<close> itself is never written past its end: its only write,
  in \<^verbatim>\<open>toggleDeveloperMode\<close>, comes after \<^verbatim>\<open>join\<close> has read the same row.
\<close>

definition array_set :: "'a \<Rightarrow> 'a list \<Rightarrow> nat \<Rightarrow> 'a \<Rightarrow> 'a list" where
  "array_set hole xs i v =
     (if i < length xs then xs[i := v] else xs @ replicate (i - length xs) hole @ [v])"

text \<open>\<^verbatim>\<open>/^[a-z]$/i.test(key)\<close>: the key is exactly one ASCII letter.\<close>

definition isLetterKey :: "string \<Rightarrow> bool" where
  "isLetterKey key =
     (case key of
        [c] \<Rightarrow> c \<in> set ''abcdefghijklmnopqrstuvwxyzABCDEFGHIJKLMNOPQRSTUVWXYZ''
      | _ \<Rightarrow> False)"

text \<open>
  What \<^verbatim>\<open>render()\<close> does to the game: it changes nothing, and it throws a
  \<^verbatim>\<open>TypeError\<close> when a row it reads does not exist.
  \<^verbatim>\<open>
    for (let row = 0; row < MAX_ROWS; row += 1) {
      for (let col = 0; col < WORD_LENGTH; col += 1) {
        const tile = tiles[row][col];
        const letter = state.guesses[row][col];
        const evalState = state.evaluations[row][col];
        ...
  \<close>
  \<^verbatim>\<open>tiles\<close> always has six rows of five tiles. Reading a cell that a row does
  not have gives \<^verbatim>\<open>undefined\<close> and does not throw. The rest of the function
  (tiles, keys, the cheat panel, the write to the storage) belongs to the
  presentation and the storage.
\<close>

definition render :: "state \<Rightarrow> completion" where
  "render s =
     (if length (guesses s) < MAX_ROWS \<or> length (evaluations s) < MAX_ROWS
         \<or> None \<in> set (take MAX_ROWS (evaluations s))
      then Throw TypeError else Normal)"

text \<open>
  \<^verbatim>\<open>
  function toggleDeveloperMode() {
    state.developerMode = !state.developerMode;
    state.guesses[state.currentRow] = Array(WORD_LENGTH).fill('');
    state.evaluations[state.currentRow] = Array(WORD_LENGTH).fill('empty');
    state.currentCol = 0;
    setStatus(state.developerMode ? 'Welcome developer.' : 'Developer mode disabled.');
    render();
  }
  \<close>
  The empty string \<^verbatim>\<open>''\<close> of a cell is the empty list \<open>[]\<close>.
\<close>

definition toggleDeveloperMode :: "page \<Rightarrow> completion \<times> page" where
  "toggleDeveloperMode p =
     (let s = state p;
          s1 = s\<lparr>developerMode := \<not> developerMode s\<rparr>;
          s2 = s1\<lparr>guesses := array_set [] (guesses s1) (currentRow s1) (replicate WORD_LENGTH [])\<rparr>;
          s3 = s2\<lparr>evaluations :=
                 array_set None (evaluations s2) (currentRow s2) (Some (replicate WORD_LENGTH Empty))\<rparr>;
          s4 = s3\<lparr>currentCol := 0\<rparr>
      in (render s4,
          \<lparr>state = s4,
           statusEl = (if developerMode s4 then WelcomeDeveloper else DeveloperModeDisabled)\<rparr>))"

text \<open>
  The part of \<^verbatim>\<open>submitGuess\<close> after the validity check, the same in both
  variants: score, store the evaluation, update the hints, then win, lose or
  advance, each time ending with \<^verbatim>\<open>render()\<close>.
  \<^verbatim>\<open>
    const scored = scoreGuess(guess, state.answer);
    state.evaluations[state.currentRow] = scored;
    updateKeyboardStates([...guess], scored);
    if (guess === state.answer) {
      state.status = 'won';
      setStatus('You got it! ...');
      render();
      return;
    }
    state.currentRow += 1;
    state.currentCol = 0;
    if (state.currentRow >= MAX_ROWS) {
      state.status = 'lost';
      setStatus(`Game over. The word was ${state.answer.toUpperCase()}.`);
      render();
      return;
    }
    setStatus('');
    render();
  \<close>
\<close>

definition score_and_advance :: "string \<Rightarrow> page \<Rightarrow> completion \<times> page" where
  "score_and_advance guess p =
     (let s = state p;
          scored = scoreGuess guess (answer s);
          s1 = s\<lparr>evaluations := array_set None (evaluations s) (currentRow s) (Some scored)\<rparr>;
          s2 = updateKeyboardStates guess scored s1
      in if guess = answer s2
         then (render (s2\<lparr>status := Won\<rparr>),
               \<lparr>state = s2\<lparr>status := Won\<rparr>, statusEl = YouGotIt\<rparr>)
         else let s3 = s2\<lparr>currentRow := currentRow s2 + 1\<rparr>;
                  s4 = s3\<lparr>currentCol := 0\<rparr>
              in if MAX_ROWS \<le> currentRow s4
                 then (render (s4\<lparr>status := Lost\<rparr>),
                       \<lparr>state = s4\<lparr>status := Lost\<rparr>,
                        statusEl = GameOver (toUpperCase (answer s4))\<rparr>)
                 else (render s4, \<lparr>state = s4, statusEl = NoMessage\<rparr>))"

text \<open>
  \<^verbatim>\<open>submitGuess()\<close> of \<^verbatim>\<open>src/game.js\<close>. \<open>isValidGuess\<close> is the validity check
  of the word source (\<^verbatim>\<open>dictionary.js\<close>, not part of the sources), a parameter.
  \<^verbatim>\<open>state.guesses[state.currentRow].join('')\<close> throws a \<^verbatim>\<open>TypeError\<close> when the
  row does not exist.
  \<^verbatim>\<open>
    if (state.currentCol < WORD_LENGTH) {
      setStatus('Not enough letters.');
      return;
    }
    const guess = state.guesses[state.currentRow].join('');
    if (guess === 'ASDEV') {
      toggleDeveloperMode();
      return;
    }
    if (!isValidGuess(guess)) {
      setStatus('Word is not in the list.');
      return;
    }
  \<close>
\<close>

definition submitGuess :: "(string \<Rightarrow> bool) \<Rightarrow> page \<Rightarrow> completion \<times> page" where
  "submitGuess isValidGuess p =
     (let s = state p in
      if currentCol s < WORD_LENGTH then (Normal, p\<lparr>statusEl := NotEnoughLetters\<rparr>)
      else if \<not> currentRow s < length (guesses s) then (Throw TypeError, p)
      else let guess = concat (guesses s ! currentRow s) in
        if guess = ''ASDEV'' then toggleDeveloperMode p
        else if \<not> isValidGuess guess then (Normal, p\<lparr>statusEl := WordNotInList\<rparr>)
        else score_and_advance guess p)"

text \<open>\<^verbatim>\<open>submitGuess()\<close> of the older variant: no developer-mode branch.\<close>

definition submitGuess_part_000 :: "(string \<Rightarrow> bool) \<Rightarrow> page \<Rightarrow> completion \<times> page" where
  "submitGuess_part_000 isValidGuess p =
     (let s = state p in
      if currentCol s < WORD_LENGTH then (Normal, p\<lparr>statusEl := NotEnoughLetters\<rparr>)
      else if \<not> currentRow s < length (guesses s) then (Throw TypeError, p)
      else let guess = concat (guesses s ! currentRow s) in
        if \<not> isValidGuess guess then (Normal, p\<lparr>statusEl := WordNotInList\<rparr>)
        else score_and_advance guess p)"

text \<open>
  The letter branch of \<^verbatim>\<open>handleKeyInput\<close>:
  \<^verbatim>\<open>
    if (state.currentCol < WORD_LENGTH) {
      state.guesses[state.currentRow][state.currentCol] = key.toUpperCase();
      state.currentCol += 1;
    }
    playSound('click');
    render();
    return;
  \<close>
  The write throws before anything is changed when the row does not exist.
\<close>

definition letter_input :: "string \<Rightarrow> page \<Rightarrow> completion \<times> page" where
  "letter_input key p =
     (let s = state p in
      if currentCol s < WORD_LENGTH then
        if currentRow s < length (guesses s) then
          let row = array_set [] (guesses s ! currentRow s) (currentCol s) (toUpperCase key);
              s1 = s\<lparr>guesses := (guesses s)[currentRow s := row]\<rparr>;
              s2 = s1\<lparr>currentCol := currentCol s1 + 1\<rparr>
          in (render s2, p\<lparr>state := s2\<rparr>)
        else (Throw TypeError, p)
      else (render s, p))"

text \<open>
  The backspace branch:
  \<^verbatim>\<open>
    if (state.currentCol > 0) {
      state.currentCol -= 1;
      state.guesses[state.currentRow][state.currentCol] = '';
    }
    render();
    return;
  \<close>
  Here the cursor has already moved when the write throws.
\<close>

definition backspace_input :: "page \<Rightarrow> completion \<times> page" where
  "backspace_input p =
     (let s = state p in
      if 0 < currentCol s then
        let s1 = s\<lparr>currentCol := currentCol s - 1\<rparr> in
        if currentRow s1 < length (guesses s1) then
          let row = array_set [] (guesses s1 ! currentRow s1) (currentCol s1) [];
              s2 = s1\<lparr>guesses := (guesses s1)[currentRow s1 := row]\<rparr>
          in (render s2, p\<lparr>state := s2\<rparr>)
        else (Throw TypeError, p\<lparr>state := s1\<rparr>)
      else (render s, p))"

text \<open>
  \<^verbatim>\<open>handleKeyInput(key)\<close> of \<^verbatim>\<open>src/game.js\<close>:
  \<^verbatim>\<open>
    if (state.status !== 'active') { return; }
    if (/^[a-z]$/i.test(key)) { ... return; }
    if (key.toLowerCase() === 'backspace') { ... return; }
    if (key.toLowerCase() === 'enter') { submitGuess(); }
  \<close>
\<close>

definition handleKeyInput :: "(string \<Rightarrow> bool) \<Rightarrow> string \<Rightarrow> page \<Rightarrow> completion \<times> page" where
  "handleKeyInput isValidGuess key p =
     (if status (state p) \<noteq> Active then (Normal, p)
      else if isLetterKey key then letter_input key p
      else if toLowerCase key = ''backspace'' then backspace_input p
      else if toLowerCase key = ''enter'' then submitGuess isValidGuess p
      else (Normal, p))"

text \<open>\<^verbatim>\<open>handleKeyInput(key)\<close> of the older variant.\<close>

definition handleKeyInput_part_000 ::
  "(string \<Rightarrow> bool) \<Rightarrow> string \<Rightarrow> page \<Rightarrow> completion \<times> page" where
  "handleKeyInput_part_000 isValidGuess key p =
     (if status (state p) \<noteq> Active then (Normal, p)
      else if isLetterKey key then letter_input key p
      else if toLowerCase key = ''backspace'' then backspace_input p
      else if toLowerCase key = ''enter'' then submitGuess_part_000 isValidGuess p
      else (Normal, p))"

text \<open>
  A sequence of input events: the browser dispatches them one after the other
  on the same globals, whether or not a handler threw.
\<close>

definition handleKeys :: "(string \<Rightarrow> bool) \<Rightarrow> string list \<Rightarrow> page \<Rightarrow> page" where
  "handleKeys isValidGuess keys p = fold (\<lambda>key q. snd (handleKeyInput isValidGuess key q)) keys p"

definition handleKeys_part_000 :: "(string \<Rightarrow> bool) \<Rightarrow> string list \<Rightarrow> page \<Rightarrow> page" where
  "handleKeys_part_000 isValidGuess keys p =
     fold (\<lambda>key q. snd (handleKeyInput_part_000 isValidGuess key q)) keys p"

section \<open>Persistence\<close>

subsection \<open>The day key\<close>

text \<open>
  The calendar fields of a JavaScript \<^verbatim>\<open>Date\<close> in local time, as
  \<^verbatim>\<open>getFullYear()\<close>, \<^verbatim>\<open>getMonth()\<close> (0 to 11) and \<^verbatim>\<open>getDate()\<close> (1 to 31)
  return them. The clock is an input of the model.
\<close>

record local_date =
  getFullYear :: int
  getMonth :: nat
  getDate :: nat

definition valid_date :: "local_date \<Rightarrow> bool" where
  "valid_date d \<longleftrightarrow> getMonth d < 12 \<and> 1 \<le> getDate d \<and> getDate d \<le> 31"

text \<open>The decimal text of an integer, as \<^verbatim>\<open>String(n)\<close> and template literals give it.\<close>

definition digit_char :: "nat \<Rightarrow> char" where
  "digit_char n = ''0123456789'' ! (n mod 10)"

function String_nat :: "nat \<Rightarrow> string" where
  "String_nat n = (if n < 10 then [digit_char n] else String_nat (n div 10) @ [digit_char n])"
  by pat_completeness auto
termination
  by (relation "measure id") auto

definition String_int :: "int \<Rightarrow> string" where
  "String_int i = (if i < 0 then CHR ''-'' # String_nat (nat (- i)) else String_nat (nat i))"

text \<open>\<^verbatim>\<open>s.padStart(n, c)\<close> for a one-character pad \<open>c\<close>.\<close>

definition padStart :: "nat \<Rightarrow> char \<Rightarrow> string \<Rightarrow> string" where
  "padStart n c s = replicate (n - length s) c @ s"

text \<open>
  \<^verbatim>\<open>
  function getLocalDayKey(date = new Date()) {
    const year = date.getFullYear();
    const month = String(date.getMonth() + 1).padStart(2, '0');
    const day = String(date.getDate()).padStart(2, '0');
    return `${year}-${month}-${day}`;
  }
  \<close>
\<close>

definition getLocalDayKey :: "local_date \<Rightarrow> string" where
  "getLocalDayKey date =
     (let year = getFullYear date;
          month = padStart 2 CHR ''0'' (String_nat (getMonth date + 1));
          day = padStart 2 CHR ''0'' (String_nat (getDate date))
      in String_int year @ ''-'' @ month @ ''-'' @ day)"

subsection \<open>Payloads\<close>

text \<open>
  The values \<^verbatim>\<open>JSON.parse\<close> returns and \<^verbatim>\<open>JSON.stringify\<close> takes. The numbers
  of a payload are the two cursors, hence integers. The text format itself
  belongs to the JavaScript runtime; \<^verbatim>\<open>JSON.parse\<close> is a parameter of the
  model, \<open>None\<close> being the \<^verbatim>\<open>SyntaxError\<close> it throws.
\<close>

datatype json =
    JNull | JBool bool | JNum int | JStr string
  | JArr "json list" | JObj "(string \<times> json) list"

text \<open>
  \<^verbatim>\<open>parsed.name\<close> on a parsed value other than \<^verbatim>\<open>null\<close>, for the property
  names \<^verbatim>\<open>loadPersistedState\<close> reads: the own property of an object, and
  \<^verbatim>\<open>undefined\<close> (\<open>None\<close>) when the object has none or the value is a boolean,
  a number, a string or an array, none of which has a property of one of these
  names.
\<close>

fun property :: "json \<Rightarrow> string \<Rightarrow> json option" where
  "property (JObj kvs) name = map_of kvs name"
| "property _ name = None"

text \<open>JavaScript truthiness of a possibly undefined JSON value.\<close>

fun truthy :: "json option \<Rightarrow> bool" where
  "truthy None = False"
| "truthy (Some JNull) = False"
| "truthy (Some (JBool b)) = b"
| "truthy (Some (JNum n)) = (n \<noteq> 0)"
| "truthy (Some (JStr s)) = (s \<noteq> [])"
| "truthy (Some (JArr xs)) = True"
| "truthy (Some (JObj kvs)) = True"

fun evaluation_text :: "evaluation \<Rightarrow> string" where
  "evaluation_text Empty = ''empty''"
| "evaluation_text Absent = ''absent''"
| "evaluation_text Present = ''present''"
| "evaluation_text Correct = ''correct''"

fun status_text :: "status \<Rightarrow> string" where
  "status_text Active = ''active''"
| "status_text Won = ''won''"
| "status_text Lost = ''lost''"

text \<open>
  The object \<^verbatim>\<open>persistState\<close> serialises:
  \<^verbatim>\<open>const payload = { ...state, dayKey: getLocalDayKey() };\<close>
  The state of \<^verbatim>\<open>src/game.js\<close> has the field \<open>developerMode\<close>, the state of
  the older variant has not. A hole of \<open>evaluations\<close> is serialised as
  \<^verbatim>\<open>null\<close>.
\<close>

definition payload_fields :: "state \<Rightarrow> (string \<times> json) list" where
  "payload_fields s =
     [(''answer'', JStr (answer s)),
      (''guesses'', JArr (map (\<lambda>row. JArr (map JStr row)) (guesses s))),
      (''evaluations'',
         JArr (map (\<lambda>row. case row of
                               None \<Rightarrow> JNull
                             | Some r \<Rightarrow> JArr (map (\<lambda>e. JStr (evaluation_text e)) r))
                 (evaluations s))),
      (''currentRow'', JNum (int (currentRow s))),
      (''currentCol'', JNum (int (currentCol s))),
      (''status'', JStr (status_text (status s))),
      (''keyStates'', JObj (map (\<lambda>(k, e). ([k], JStr (evaluation_text e))) (keyStates s)))]"

definition payload :: "local_date \<Rightarrow> state \<Rightarrow> json" where
  "payload today s =
     JObj (payload_fields s @
           [(''developerMode'', JBool (developerMode s)),
            (''dayKey'', JStr (getLocalDayKey today))])"

definition payload_part_000 :: "local_date \<Rightarrow> state \<Rightarrow> json" where
  "payload_part_000 today s =
     JObj (payload_fields s @ [(''dayKey'', JStr (getLocalDayKey today))])"

text \<open>
  \<^verbatim>\<open>localStorage.setItem(STORAGE_KEY, JSON.stringify(payload))\<close>: the text stored
  under the storage key; \<^verbatim>\<open>JSON.stringify\<close> is a parameter.
\<close>

definition persistState :: "(json \<Rightarrow> string) \<Rightarrow> local_date \<Rightarrow> state \<Rightarrow> string" where
  "persistState JSON_stringify today s = JSON_stringify (payload today s)"

definition persistState_part_000 :: "(json \<Rightarrow> string) \<Rightarrow> local_date \<Rightarrow> state \<Rightarrow> string" where
  "persistState_part_000 JSON_stringify today s = JSON_stringify (payload_part_000 today s)"

text \<open>
  The object \<^verbatim>\<open>loadPersistedState\<close> returns. The fields are copied from the
  parsed payload unchecked, so they are JSON values, \<open>None\<close> where the payload has
  no such field. The older variant returns no \<^verbatim>\<open>developerMode\<close> field.
\<close>

record restored =
  r_answer :: "json option"
  r_guesses :: "json option"
  r_evaluations :: "json option"
  r_currentRow :: "json option"
  r_currentCol :: "json option"
  r_status :: "json option"
  r_keyStates :: json
  r_developerMode :: "bool option"

text \<open>
  \<^verbatim>\<open>
  function loadPersistedState() {
    const raw = localStorage.getItem(STORAGE_KEY);
    if (!raw) { return null; }
    try {
      const parsed = JSON.parse(raw);
      const todayKey = getLocalDayKey();
      if (parsed.dayKey !== todayKey || !parsed.answer) { return null; }
      return { answer: parsed.answer, guesses: parsed.guesses, ...,
               keyStates: parsed.keyStates || {},
               developerMode: Boolean(parsed.developerMode) };
    } catch { return null; }
  }
  \<close>
  \<open>raw\<close> is the stored item, \<open>None\<close> when there is none (\<^verbatim>\<open>getItem\<close> returns
  \<^verbatim>\<open>null\<close>). The first property read of \<open>parsed\<close> throws a \<^verbatim>\<open>TypeError\<close>
  when \<open>parsed\<close> is \<^verbatim>\<open>null\<close>, and the \<^verbatim>\<open>catch\<close> turns that, like the
  \<^verbatim>\<open>SyntaxError\<close> of \<^verbatim>\<open>JSON.parse\<close>, into the result \<^verbatim>\<open>null\<close>.
\<close>

definition load_with ::
  "bool \<Rightarrow> (string \<Rightarrow> json option) \<Rightarrow> local_date \<Rightarrow> string option \<Rightarrow> restored option" where
  "load_with withDeveloperMode JSON_parse today raw =
     (case raw of
        None \<Rightarrow> None
      | Some r \<Rightarrow>
          if r = [] then None
          else (case JSON_parse r of
                  None \<Rightarrow> None
                | Some parsed \<Rightarrow>
                    let todayKey = getLocalDayKey today in
                    if parsed = JNull then None
                    else if property parsed ''dayKey'' \<noteq> Some (JStr todayKey)
                            \<or> \<not> truthy (property parsed ''answer'')
                    then None
                    else Some \<lparr>r_answer = property parsed ''answer'',
                               r_guesses = property parsed ''guesses'',
                               r_evaluations = property parsed ''evaluations'',
                               r_currentRow = property parsed ''currentRow'',
                               r_currentCol = property parsed ''currentCol'',
                               r_status = property parsed ''status'',
                               r_keyStates =
                                 (case property parsed ''keyStates'' of
                                    Some v \<Rightarrow> if truthy (Some v) then v else JObj []
                                  | None \<Rightarrow> JObj []),
                               r_developerMode =
                                 (if withDeveloperMode
                                  then Some (truthy (property parsed ''developerMode''))
                                  else None)\<rparr>))"

text \<open>
  The two variants differ only in the \<^verbatim>\<open>developerMode\<close> field of the result.
\<close>

definition loadPersistedState ::
  "(string \<Rightarrow> json option) \<Rightarrow> local_date \<Rightarrow> string option \<Rightarrow> restored option" where
  "loadPersistedState = load_with True"

definition loadPersistedState_part_000 ::
  "(string \<Rightarrow> json option) \<Rightarrow> local_date \<Rightarrow> string option \<Rightarrow> restored option" where
  "loadPersistedState_part_000 = load_with False"

text \<open>
  The game \<^verbatim>\<open>init()\<close> leaves in the global \<^verbatim>\<open>state\<close>: the restored object when
  \<^verbatim>\<open>loadPersistedState()\<close> returned one, otherwise the state that
  \<^verbatim>\<open>createNewState()\<close> made when the module was loaded, and the status
  message. The \<^verbatim>\<open>render()\<close> that ends \<^verbatim>\<open>init()\<close> changes neither.
  \<^verbatim>\<open>
    const persisted = loadPersistedState();
    if (persisted) {
      state = persisted;
      setStatus(state.status === 'active' ? 'Restored your game.' : 'Restored completed game.');
    } else {
      setStatus('Guess the Wordle in 6 tries.');
    }
  \<close>
\<close>

datatype game = FreshGame state | RestoredGame restored

definition init ::
  "(string \<Rightarrow> json option) \<Rightarrow> local_date \<Rightarrow> string option \<Rightarrow> string \<Rightarrow> game \<times> message" where
  "init JSON_parse today raw todaysAnswer =
     (case loadPersistedState JSON_parse today raw of
        Some persisted \<Rightarrow>
          (RestoredGame persisted,
           if r_status persisted = Some (JStr ''active'')
           then RestoredYourGame else RestoredCompletedGame)
      | None \<Rightarrow> (FreshGame (createNewState todaysAnswer), GuessIn6Tries))"

text \<open>\<^verbatim>\<open>init()\<close> of the older variant: the same text, over its own \<^verbatim>\<open>loadPersistedState\<close>.\<close>

definition init_part_000 ::
  "(string \<Rightarrow> json option) \<Rightarrow> local_date \<Rightarrow> string option \<Rightarrow> string \<Rightarrow> game \<times> message" where
  "init_part_000 JSON_parse today raw todaysAnswer =
     (case loadPersistedState_part_000 JSON_parse today raw of
        Some persisted \<Rightarrow>
          (RestoredGame persisted,
           if r_status persisted = Some (JStr ''active'')
           then RestoredYourGame else RestoredCompletedGame)
      | None \<Rightarrow> (FreshGame (createNewState todaysAnswer), GuessIn6Tries))"

section \<open>Notions used to state the claims\<close>

subsection \<open>Hints\<close>

text \<open>
  The priority of a hint as a number: the \<^verbatim>\<open>statePriority\<close> of the stored
  evaluation, and 0 for a letter without a hint (or with a hint that has no
  priority).
\<close>

definition hint_priority :: "evaluation option \<Rightarrow> nat" where
  "hint_priority h = (case Option.bind h statePriority of Some p \<Rightarrow> p | None \<Rightarrow> 0)"

text \<open>A sequence of calls of \<^verbatim>\<open>updateKeyboardStates\<close>, one per scored guess.\<close>

definition hint_updates :: "(char list \<times> evaluation list) list \<Rightarrow> state \<Rightarrow> state" where
  "hint_updates updates s =
     fold (\<lambda>(guessLetters, scoredStates). updateKeyboardStates guessLetters scoredStates) updates s"

text \<open>
  The relation between the hint of a letter before and after: it is the same, or
  there was none, or the priority of the new one is strictly greater.
\<close>

definition replaced_or_kept :: "evaluation option \<Rightarrow> evaluation option \<Rightarrow> bool" where
  "replaced_or_kept old new \<longleftrightarrow>
     new = old \<or> old = None \<or>
     priority_greater (Option.bind new statePriority) (Option.bind old statePriority)"

subsection \<open>Game states\<close>

text \<open>
  The data model of the specification: six rows of five letters, six rows of
  five evaluations (none of them a hole), the column cursor at most 5, the row
  cursor at most 6 and below 6 while the game is active.
\<close>

definition valid_state :: "state \<Rightarrow> bool" where
  "valid_state s \<longleftrightarrow>
     length (guesses s) = MAX_ROWS \<and>
     length (evaluations s) = MAX_ROWS \<and>
     list_all (\<lambda>row. length row = WORD_LENGTH) (guesses s) \<and>
     list_all (\<lambda>row. case row of None \<Rightarrow> False | Some r \<Rightarrow> length r = WORD_LENGTH)
       (evaluations s) \<and>
     currentRow s \<le> MAX_ROWS \<and>
     currentCol s \<le> WORD_LENGTH \<and>
     (status s = Active \<longrightarrow> currentRow s < MAX_ROWS)"

text \<open>
  What a submission that advances the row leaves behind: the row cursor one
  further, the column cursor at 0, the game still active, the evaluation of the
  submitted row stored, every other evaluation row and all letters as before.
\<close>

definition row_advanced :: "page \<Rightarrow> page \<Rightarrow> bool" where
  "row_advanced p p' \<longleftrightarrow>
     currentRow (state p') = currentRow (state p) + 1 \<and>
     currentCol (state p') = 0 \<and>
     status (state p') = Active \<and>
     evaluations (state p') =
       (evaluations (state p))[currentRow (state p) :=
          Some (scoreGuess (concat (guesses (state p) ! currentRow (state p))) (answer (state p)))] \<and>
     guesses (state p') = guesses (state p)"

text \<open>
  The rows before the current row of \<open>p'\<close> have the same letters and the same
  evaluations in \<open>q\<close>.
\<close>

definition rows_frozen :: "page \<Rightarrow> page \<Rightarrow> bool" where
  "rows_frozen p' q \<longleftrightarrow>
     (\<forall>r < currentRow (state p').
        guesses (state q) ! r = guesses (state p') ! r \<and>
        evaluations (state q) ! r = evaluations (state p') ! r)"

text \<open>
  The letters of the current row: while the game is active, every cell before the
  column cursor holds exactly one upper-case letter.
\<close>

definition upper_case_letter :: "string \<Rightarrow> bool" where
  "upper_case_letter cell \<longleftrightarrow>
     (case cell of [c] \<Rightarrow> c \<in> set ''ABCDEFGHIJKLMNOPQRSTUVWXYZ'' | _ \<Rightarrow> False)"

definition letters_filled :: "state \<Rightarrow> bool" where
  "letters_filled s \<longleftrightarrow>
     (status s = Active \<longrightarrow>
        (\<forall>c < currentCol s. upper_case_letter (guesses s ! currentRow s ! c)))"

subsection \<open>Example inputs\<close>

text \<open>
  A word source, and pages reached from a fresh game with the answer CRANE by
  typing letters.
\<close>

definition example_dictionary :: "string \<Rightarrow> bool" where
  "example_dictionary w \<longleftrightarrow> w \<in> set [''CRANE'', ''TRACE'', ''SPEED'', ''ABIDE'']"

definition fresh_page :: page where
  "fresh_page = \<lparr>state = createNewState ''CRANE'', statusEl = GuessIn6Tries\<rparr>"

definition asdev_page :: page where
  "asdev_page = handleKeys example_dictionary [''a'', ''s'', ''d'', ''e'', ''v''] fresh_page"

definition trace_page :: page where
  "trace_page = handleKeys example_dictionary [''t'', ''r'', ''a'', ''c'', ''e''] fresh_page"

definition tra_page :: page where
  "tra_page = handleKeys example_dictionary [''t'', ''r'', ''a''] fresh_page"

definition quick_page :: page where
  "quick_page = handleKeys example_dictionary [''q'', ''u'', ''i'', ''c'', ''k''] fresh_page"

text \<open>
  Two consecutive days, a serialiser that writes one text and a parser that reads
  that text as the payload of the first day (with and without the
  \<open>developerMode\<close> field).
\<close>

definition day1 :: local_date where
  "day1 = \<lparr>getFullYear = 2026, getMonth = 10, getDate = 1\<rparr>"

definition day2 :: local_date where
  "day2 = \<lparr>getFullYear = 2026, getMonth = 10, getDate = 2\<rparr>"

definition example_stringify :: "json \<Rightarrow> string" where
  "example_stringify v = ''saved''"

definition example_parse :: "string \<Rightarrow> json option" where
  "example_parse r = (if r = ''saved'' then Some (payload day1 (state trace_page)) else None)"

definition example_parse_part_000 :: "string \<Rightarrow> json option" where
  "example_parse_part_000 r =
     (if r = ''saved'' then Some (payload_part_000 day1 (state trace_page)) else None)"

text \<open>
  A stored text whose \<open>dayKey\<close> is the key of the second day and whose \<open>answer\<close>
  is the number 0, and what \<^verbatim>\<open>JSON.parse\<close> makes of it.
\<close>

definition zero_answer_text :: string where
  \<open>zero_answer_text = ''{"dayKey":"2026-11-02","answer":0}''\<close>

definition zero_answer_payload :: json where
  "zero_answer_payload = JObj [(''dayKey'', JStr ''2026-11-02''), (''answer'', JNum 0)]"

definition zero_answer_parse :: "string \<Rightarrow> json option" where
  "zero_answer_parse r = (if r = zero_answer_text then Some zero_answer_payload else None)"

section \<open>Verification of the scoring engine\<close>

subsection \<open>The source function computes the two-pass scheme of the specification\<close>

lemma getLetterCounts_acc:
  "(\<forall>c. acc (Some c) = (if 0 < M c then Some (Num (int (M c))) else None)) \<Longrightarrow>
   foldl (\<lambda>acc letter. acc(Some letter \<mapsto> Num (or_zero (acc (Some letter)) + 1))) acc word (Some c)
     = (if 0 < M c + count_list word c then Some (Num (int (M c + count_list word c))) else None)"
proof (induction word arbitrary: acc M)
  case Nil
  then show ?case by simp
next
  case (Cons x xs)
  let ?acc = "acc(Some x \<mapsto> Num (or_zero (acc (Some x)) + 1))"
  let ?M = "M(x := M x + 1)"
  have "\<forall>c. ?acc (Some c) = (if 0 < ?M c then Some (Num (int (?M c))) else None)"
    using Cons.prems by auto
  from Cons.IH[OF this] show ?case by auto
qed

lemma getLetterCounts_rel: "counts_rel (getLetterCounts ans) (count_list ans)"
  using getLetterCounts_acc[of Map.empty "\<lambda>_. 0" ans]
  by (simp add: counts_rel_def getLetterCounts_def)

lemma counts_rel_dec:
  "counts_rel rc M \<Longrightarrow> 0 < M c \<Longrightarrow>
   counts_rel (rc(Some c \<mapsto> minus_one (rc (Some c)))) (decrement M c)"
  by (auto simp: counts_rel_def decrement_def)

lemma counts_rel_gt: "counts_rel rc M \<Longrightarrow> greater_zero (rc (Some c)) = (0 < M c)"
  by (cases "0 < M c") (auto simp: counts_rel_def)

lemma decrement_apply: "decrement M g c = (if c = g then M g - 1 else M c)"
  by (simp add: decrement_def)

lemma spec_pass1_snoc:
  "length gs = length as \<Longrightarrow>
   spec_pass1 (gs @ [g]) (as @ [a]) M =
     (let M' = spec_pass1 gs as M in if g = a then decrement M' g else M')"
  by (induction gs as arbitrary: M rule: list_induct2) auto

lemma spec_pass2_counts_snoc:
  "length gs = length as \<Longrightarrow>
   spec_pass2_counts (gs @ [g]) (as @ [a]) M =
     (let M' = spec_pass2_counts gs as M
      in if g \<noteq> a \<and> 0 < M' g then decrement M' g else M')"
  by (induction gs as arbitrary: M rule: list_induct2) auto

lemma spec_pass2_snoc:
  "length gs = length as \<Longrightarrow>
   spec_pass2 (gs @ [g]) (as @ [a]) M =
     spec_pass2 gs as M @
       [if g = a then Correct else if 0 < spec_pass2_counts gs as M g then Present else Absent]"
  by (induction gs as arbitrary: M rule: list_induct2) auto

lemma spec_pass1_lower: "M c \<le> spec_pass1 gs as M c + count_list as c"
proof (induction gs as M rule: spec_pass1.induct)
  case (1 g gs a as remaining)
  then show ?case by (auto simp: decrement_apply split: if_splits)
qed auto

lemma length_exact_marks: "length gs = length as \<Longrightarrow> length (exact_marks gs as) = length gs"
  by (simp add: exact_marks_def)

lemma exact_marks_nth:
  "length gs = length as \<Longrightarrow> k < length gs \<Longrightarrow>
   exact_marks gs as ! k = (if gs ! k = as ! k then Correct else Absent)"
  by (simp add: exact_marks_def)

lemma length_spec_pass2: "length gs = length as \<Longrightarrow> length (spec_pass2 gs as M) = length gs"
  by (induction gs as arbitrary: M rule: list_induct2) auto

lemma pass1_fold:
  assumes len: "length guess = n" "length ans = n"
  shows "k \<le> n \<Longrightarrow>
    \<exists>rc. fold (pass1_step guess ans) [0..<k] (replicate n Absent, getLetterCounts ans)
           = (exact_marks (take k guess) (take k ans) @ replicate (n - k) Absent, rc)
         \<and> counts_rel rc (spec_pass1 (take k guess) (take k ans) (count_list ans))"
proof (induction k)
  case 0
  show ?case by (simp add: exact_marks_def getLetterCounts_rel)
next
  case (Suc k)
  then have k: "k < n" by simp
  let ?M = "spec_pass1 (take k guess) (take k ans) (count_list ans)"
  let ?M' = "spec_pass1 (take (Suc k) guess) (take (Suc k) ans) (count_list ans)"
  let ?res = "exact_marks (take k guess) (take k ans) @ replicate (n - k) Absent"
  let ?res' = "exact_marks (take (Suc k) guess) (take (Suc k) ans) @ replicate (n - Suc k) Absent"
  from Suc obtain rc where
    fold_k: "fold (pass1_step guess ans) [0..<k] (replicate n Absent, getLetterCounts ans)
           = (?res, rc)"
    and rel: "counts_rel rc ?M"
    by auto
  have step: "fold (pass1_step guess ans) [0..<Suc k] (replicate n Absent, getLetterCounts ans)
      = pass1_step guess ans k (?res, rc)"
    using fold_k by simp
  have tg: "take (Suc k) guess = take k guess @ [guess ! k]"
    and ta: "take (Suc k) ans = take k ans @ [ans ! k]"
    using k len by (simp_all add: take_Suc_conv_app_nth)
  have lens: "length (take k guess) = length (take k ans)"
    using k len by simp
  have lenm: "length (exact_marks (take k guess) (take k ans)) = k"
    using k len by (simp add: exact_marks_def)
  have rep: "replicate (n - k) Absent = Absent # replicate (n - Suc k) Absent"
    using k by (cases "n - k") (auto simp: Suc_diff_Suc)
  have ca: "charAt guess k = Some (guess ! k)" "charAt ans k = Some (ans ! k)"
    using k len by (simp_all add: charAt_def)
  have marks: "exact_marks (take (Suc k) guess) (take (Suc k) ans)
      = exact_marks (take k guess) (take k ans) @ [if guess ! k = ans ! k then Correct else Absent]"
    using lens by (simp add: tg ta exact_marks_def)
  have pos: "0 < ?M (ans ! k)"
  proof -
    have "ans = take k ans @ ans ! k # drop (Suc k) ans"
      using k len by (simp add: id_take_nth_drop)
    then have "count_list ans (ans ! k) = count_list (take k ans) (ans ! k) + (count_list (drop (Suc k) ans) (ans ! k) + 1)"
      by (metis count_list.simps(2) count_list_append)
    moreover have "count_list ans (ans ! k) \<le> ?M (ans ! k) + count_list (take k ans) (ans ! k)"
      by (rule spec_pass1_lower)
    ultimately show ?thesis by linarith
  qed
  show ?case
  proof (cases "guess ! k = ans ! k")
    case True
    let ?rc' = "rc(Some (guess ! k) \<mapsto> minus_one (rc (Some (guess ! k))))"
    have A: "pass1_step guess ans k (?res, rc) = (?res[k := Correct], ?rc')"
      using True by (simp add: pass1_step_def ca)
    have B: "?res[k := Correct] = ?res'"
      using lenm True by (simp add: marks rep list_update_append)
    have "?M' = decrement ?M (guess ! k)"
      using True lens by (simp add: tg ta spec_pass1_snoc Let_def)
    moreover have "counts_rel ?rc' (decrement ?M (guess ! k))"
      using pos True by (intro counts_rel_dec[OF rel]) simp
    ultimately have C: "counts_rel ?rc' ?M'" by simp
    show ?thesis unfolding step A B using C by blast
  next
    case False
    have A: "pass1_step guess ans k (?res, rc) = (?res, rc)"
      using False by (simp add: pass1_step_def ca)
    have B: "?res = ?res'"
      using False by (simp add: marks rep)
    have "?M' = ?M"
      using False lens by (simp add: tg ta spec_pass1_snoc Let_def)
    with rel have C: "counts_rel rc ?M'" by simp
    show ?thesis unfolding step A using B C by auto
  qed
qed

lemma pass2_fold:
  assumes len: "length guess = n" "length ans = n"
    and rel1: "counts_rel rc1 M1"
  shows "k \<le> n \<Longrightarrow>
    \<exists>rc. fold (pass2_step guess) [0..<k] (exact_marks guess ans, rc1)
           = (spec_pass2 (take k guess) (take k ans) M1 @ drop k (exact_marks guess ans), rc)
         \<and> counts_rel rc (spec_pass2_counts (take k guess) (take k ans) M1)"
proof (induction k)
  case 0
  show ?case by (simp add: rel1)
next
  case (Suc k)
  then have k: "k < n" by simp
  let ?M = "spec_pass2_counts (take k guess) (take k ans) M1"
  let ?M' = "spec_pass2_counts (take (Suc k) guess) (take (Suc k) ans) M1"
  let ?pre = "spec_pass2 (take k guess) (take k ans) M1"
  let ?pre' = "spec_pass2 (take (Suc k) guess) (take (Suc k) ans) M1"
  let ?em = "exact_marks guess ans"
  let ?res = "?pre @ drop k ?em"
  from Suc obtain rc where
    fold_k: "fold (pass2_step guess) [0..<k] (?em, rc1) = (?res, rc)"
    and rel: "counts_rel rc ?M"
    by auto
  have step: "fold (pass2_step guess) [0..<Suc k] (?em, rc1) = pass2_step guess k (?res, rc)"
    using fold_k by simp
  have tg: "take (Suc k) guess = take k guess @ [guess ! k]"
    and ta: "take (Suc k) ans = take k ans @ [ans ! k]"
    using k len by (simp_all add: take_Suc_conv_app_nth)
  have lens: "length (take k guess) = length (take k ans)"
    using k len by simp
  have lenp: "length ?pre = k"
    using lens k len by (simp add: length_spec_pass2)
  have dr: "drop k ?em = (if guess ! k = ans ! k then Correct else Absent) # drop (Suc k) ?em"
    using k len by (simp add: Cons_nth_drop_Suc[symmetric] exact_marks_nth length_exact_marks)
  have ca: "charAt guess k = Some (guess ! k)"
    using k len by (simp add: charAt_def)
  have gt: "greater_zero (rc (Some (guess ! k))) = (0 < ?M (guess ! k))"
    using rel by (rule counts_rel_gt)
  have nthk: "?res ! k = (if guess ! k = ans ! k then Correct else Absent)"
    using lenp by (simp add: dr nth_append)
  have snoc: "?pre' =
     ?pre @ [if guess ! k = ans ! k then Correct else if 0 < ?M (guess ! k) then Present else Absent]"
    using lens by (simp add: tg ta spec_pass2_snoc)
  have snocc: "?M' =
     (if guess ! k \<noteq> ans ! k \<and> 0 < ?M (guess ! k) then decrement ?M (guess ! k) else ?M)"
    using lens by (simp add: tg ta spec_pass2_counts_snoc Let_def)
  consider (exact) "guess ! k = ans ! k"
    | (present) "guess ! k \<noteq> ans ! k" "0 < ?M (guess ! k)"
    | (absent) "guess ! k \<noteq> ans ! k" "?M (guess ! k) = 0"
    by auto
  then show ?case
  proof cases
    case exact
    have A: "pass2_step guess k (?res, rc) = (?res, rc)"
      using exact nthk by (simp add: pass2_step_def)
    have B: "?res = ?pre' @ drop (Suc k) ?em"
      using exact by (simp add: snoc dr)
    have C: "counts_rel rc ?M'"
      using exact rel by (simp add: snocc)
    show ?thesis unfolding step A using B C by auto
  next
    case present
    let ?rc' = "rc(Some (guess ! k) \<mapsto> minus_one (rc (Some (guess ! k))))"
    have A: "pass2_step guess k (?res, rc) = (?res[k := Present], ?rc')"
      using present nthk gt by (simp add: pass2_step_def ca Let_def)
    have B: "?res[k := Present] = ?pre' @ drop (Suc k) ?em"
      using lenp present by (simp add: dr snoc list_update_append)
    have "counts_rel ?rc' (decrement ?M (guess ! k))"
      using present by (intro counts_rel_dec[OF rel]) simp
    then have C: "counts_rel ?rc' ?M'"
      using present by (simp add: snocc)
    show ?thesis unfolding step A B using C by blast
  next
    case absent
    have A: "pass2_step guess k (?res, rc) = (?res, rc)"
      using absent nthk gt by (simp add: pass2_step_def ca Let_def)
    have B: "?res = ?pre' @ drop (Suc k) ?em"
      using absent by (simp add: snoc dr)
    have C: "counts_rel rc ?M'"
      using absent rel by (simp add: snocc)
    show ?thesis unfolding step A using B C by auto
  qed
qed

lemma scoreGuess_eq_spec:
  assumes "length guess = WORD_LENGTH" "length ans = WORD_LENGTH"
  shows "scoreGuess guess ans = spec_score guess ans"
proof -
  from pass1_fold[OF assms, of WORD_LENGTH] obtain rc1 where
    f1: "fold (pass1_step guess ans) [0..<WORD_LENGTH] (replicate WORD_LENGTH Absent, getLetterCounts ans)
         = (exact_marks guess ans, rc1)"
    and r1: "counts_rel rc1 (spec_pass1 guess ans (count_list ans))"
    using assms by auto
  from pass2_fold[OF assms r1, of WORD_LENGTH] obtain rc2 where
    f2: "fold (pass2_step guess) [0..<WORD_LENGTH] (exact_marks guess ans, rc1)
         = (spec_pass2 guess ans (spec_pass1 guess ans (count_list ans)), rc2)"
    using assms by (auto simp: length_exact_marks)
  show ?thesis
    by (simp add: scoreGuess_def Let_def f1 f2 spec_score_def)
qed

subsection \<open>Properties of the two-pass scheme\<close>

lemma set_spec_pass2: "set (spec_pass2 gs as M) \<subseteq> {Correct, Present, Absent}"
  by (induction gs as M rule: spec_pass2.induct) auto

lemma spec_pass2_nth_Correct:
  "length gs = length as \<Longrightarrow> i < length gs \<Longrightarrow>
   (spec_pass2 gs as M ! i = Correct) = (gs ! i = as ! i)"
proof (induction gs as arbitrary: M i rule: list_induct2)
  case Nil
  then show ?case by simp
next
  case (Cons g gs a as)
  then show ?case by (cases i) auto
qed

lemma spec_pass2_no_Present:
  "length gs = length as \<Longrightarrow> M L = 0 \<Longrightarrow> j < length gs \<Longrightarrow> gs ! j = L \<Longrightarrow>
   spec_pass2 gs as M ! j \<noteq> Present"
proof (induction gs as arbitrary: M j rule: list_induct2)
  case Nil
  then show ?case by simp
next
  case (Cons g gs a as)
  show ?case
  proof (cases j)
    case 0
    with Cons.prems show ?thesis by simp
  next
    case (Suc j')
    have dec: "decrement M g L = 0"
      using Cons.prems(1) by (auto simp: decrement_apply)
    from Suc Cons.prems Cons.IH[of M j'] Cons.IH[of "decrement M g" j'] dec
    show ?thesis by simp
  qed
qed

lemma spec_pass2_earlier_first:
  "length gs = length as \<Longrightarrow> i < j \<Longrightarrow> j < length gs \<Longrightarrow> gs ! i = gs ! j \<Longrightarrow>
   gs ! i \<noteq> as ! i \<Longrightarrow> spec_pass2 gs as M ! j = Present \<Longrightarrow>
   spec_pass2 gs as M ! i = Present"
proof (induction gs as arbitrary: M i j rule: list_induct2)
  case Nil
  then show ?case by simp
next
  case (Cons g gs a as)
  from Cons.prems obtain j' where j: "j = Suc j'" by (cases j) auto
  show ?case
  proof (cases i)
    case 0
    show ?thesis
    proof (cases "0 < M g")
      case True
      with 0 Cons.prems show ?thesis by simp
    next
      case False
      then have "M (gs ! j') = 0" using Cons.prems 0 j by simp
      from spec_pass2_no_Present[where gs = gs and as = as and M = M and j = j', OF Cons.hyps this]
        Cons.prems 0 j False
      show ?thesis by simp
    qed
  next
    case (Suc i')
    from Suc Cons.prems j Cons.IH[of i' j' M] Cons.IH[of i' j' "decrement M g"]
    show ?thesis by (simp split: if_splits)
  qed
qed

lemma spec_pass1_le: "spec_pass1 gs as M c \<le> M c"
proof (induction gs as M rule: spec_pass1.induct)
  case (1 g gs a as remaining)
  have "decrement remaining g c \<le> remaining c"
    by (simp add: decrement_apply)
  with 1 show ?case by (auto split: if_splits intro: order_trans)
qed auto

lemma spec_pass1_exact:
  "length gs = length as \<Longrightarrow> count_list as L \<le> M L \<Longrightarrow>
   spec_pass1 gs as M L + exact_count L gs as = M L"
proof (induction gs as arbitrary: M rule: list_induct2)
  case Nil
  then show ?case by (simp add: exact_count_def)
next
  case (Cons g gs a as)
  show ?case
  proof (cases "g = a")
    case True
    define M' where "M' = decrement M g"
    have h: "M' L = (if L = g then M g - 1 else M L)"
      by (simp add: M'_def decrement_apply)
    have "count_list as L \<le> M' L"
      using Cons.prems True by (auto simp: h split: if_splits)
    then have "spec_pass1 gs as M' L + exact_count L gs as = M' L"
      by (rule Cons.IH)
    moreover have "spec_pass1 (g # gs) (a # as) M = spec_pass1 gs as M'"
      using True by (simp add: M'_def)
    moreover have "exact_count L (g # gs) (a # as) = (if L = g then 1 else 0) + exact_count L gs as"
      using True by (auto simp: exact_count_def)
    moreover have "L = g \<Longrightarrow> 0 < M g"
      using Cons.prems True by auto
    ultimately show ?thesis
      by (auto simp: h)
  next
    case False
    have "count_list as L \<le> M L" using Cons.prems by (auto split: if_splits)
    from Cons.IH[of M, OF this] False show ?thesis
      by (auto simp: exact_count_def)
  qed
qed

lemma marked_count_spec_pass2:
  "length gs = length as \<Longrightarrow>
   marked_count L gs (spec_pass2 gs as M) \<le> M L + exact_count L gs as"
proof (induction gs as arbitrary: M rule: list_induct2)
  case Nil
  then show ?case by (simp add: marked_count_def)
next
  case (Cons g gs a as)
  show ?case
  proof (cases "g = a")
    case True
    with Cons.IH[of M] show ?thesis by (auto simp: marked_count_def exact_count_def)
  next
    case False
    show ?thesis
    proof (cases "0 < M g")
      case True
      define M' where "M' = decrement M g"
      have h: "M' L = (if L = g then M g - 1 else M L)"
        by (simp add: M'_def decrement_apply)
      have ih: "marked_count L gs (spec_pass2 gs as M') \<le> M' L + exact_count L gs as"
        by (rule Cons.IH)
      have sp: "spec_pass2 (g # gs) (a # as) M = Present # spec_pass2 gs as M'"
        using True False by (simp add: M'_def)
      have mc: "marked_count L (g # gs) (Present # spec_pass2 gs as M')
          = (if L = g then 1 else 0) + marked_count L gs (spec_pass2 gs as M')"
        by (auto simp: marked_count_def)
      have ec: "exact_count L (g # gs) (a # as) = exact_count L gs as"
        using False by (auto simp: exact_count_def)
      show ?thesis
        unfolding sp mc ec using ih True by (auto simp: h split: if_splits)
    next
      case F: False
      with False Cons.IH[of M] show ?thesis
        by (auto simp: marked_count_def exact_count_def)
    qed
  qed
qed

lemma marked_count_spec_score:
  assumes "length guess = length ans"
  shows "marked_count L guess (spec_score guess ans) \<le> count_list ans L"
proof -
  have "marked_count L guess (spec_score guess ans)
      \<le> spec_pass1 guess ans (count_list ans) L + exact_count L guess ans"
    unfolding spec_score_def by (rule marked_count_spec_pass2[OF assms])
  also have "\<dots> = count_list ans L"
    by (rule spec_pass1_exact[OF assms]) simp
  finally show ?thesis .
qed

lemma marked_count_card:
  "length guess = length result \<Longrightarrow>
   marked_count L guess result =
     card {i. i < length guess \<and> guess ! i = L \<and> (result ! i = Present \<or> result ! i = Correct)}"
proof -
  assume len: "length guess = length result"
  have "{i. i < length (zip guess result) \<and>
            (case zip guess result ! i of (g, e) \<Rightarrow> g = L \<and> (e = Present \<or> e = Correct))}
      = {i. i < length guess \<and> guess ! i = L \<and> (result ! i = Present \<or> result ! i = Correct)}"
    using len by auto
  then show ?thesis
    by (simp add: marked_count_def length_filter_conv_card)
qed

lemma length_fold_pass1:
  "length (fst (fold (pass1_step guess ans) is st)) = length (fst st)"
  by (induction "is" arbitrary: st) (auto simp: pass1_step_def split: prod.splits)

lemma length_fold_pass2:
  "length (fst (fold (pass2_step guess) is st)) = length (fst st)"
  by (induction "is" arbitrary: st) (auto simp: pass2_step_def Let_def split: prod.splits)

lemma length_scoreGuess: "length (scoreGuess guess ans) = WORD_LENGTH"
  by (simp add: scoreGuess_def Let_def length_fold_pass1 length_fold_pass2)

lemma length_spec_score:
  "length guess = length ans \<Longrightarrow> length (spec_score guess ans) = length guess"
  by (simp add: spec_score_def length_spec_pass2)

lemma spec_score_all_Correct:
  assumes "length guess = length ans"
  shows "(spec_score guess ans = replicate (length guess) Correct) = (guess = ans)"
proof
  assume eq: "spec_score guess ans = replicate (length guess) Correct"
  show "guess = ans"
  proof (rule nth_equalityI)
    show "length guess = length ans" by (rule assms)
  next
    fix i assume i: "i < length guess"
    then have "spec_score guess ans ! i = Correct" by (simp add: eq)
    then show "guess ! i = ans ! i"
      using spec_pass2_nth_Correct[OF assms i] by (simp add: spec_score_def)
  qed
next
  assume "guess = ans"
  have "\<And>i. i < length guess \<Longrightarrow> spec_score guess ans ! i = Correct"
    using spec_pass2_nth_Correct[OF assms] \<open>guess = ans\<close> by (simp add: spec_score_def)
  then show "spec_score guess ans = replicate (length guess) Correct"
    using length_spec_score[OF assms] by (intro nth_equalityI) auto
qed

lemma spec_score_not_in_answer:
  assumes len: "length guess = length ans" and i: "i < length guess"
    and notin: "guess ! i \<notin> set ans"
  shows "spec_score guess ans ! i = Absent"
proof -
  let ?M = "spec_pass1 guess ans (count_list ans)"
  have "?M (guess ! i) \<le> count_list ans (guess ! i)" by (rule spec_pass1_le)
  then have z: "?M (guess ! i) = 0" using notin by simp
  have np: "spec_score guess ans ! i \<noteq> Present"
    unfolding spec_score_def
    using spec_pass2_no_Present[where gs = guess and as = ans and M = "?M" and L = "guess ! i" and j = i] len z i
    by simp
  have "ans ! i \<in> set ans" using len i by simp
  then have "guess ! i \<noteq> ans ! i" using notin by auto
  then have nc: "spec_score guess ans ! i \<noteq> Correct"
    using spec_pass2_nth_Correct[OF len i] by (simp add: spec_score_def)
  have "spec_score guess ans ! i \<in> set (spec_score guess ans)"
    using i length_spec_score[OF len] by simp
  then have "spec_score guess ans ! i \<in> {Correct, Present, Absent}"
    using set_spec_pass2 unfolding spec_score_def by blast
  with np nc show ?thesis by auto
qed

subsection \<open>Claims about the scoring engine\<close>

text \<open>
  Claim C1. For every guess and answer of five letters, \<open>scoreGuess\<close> returns a
  sequence of five evaluations, each of them \<open>correct\<close>, \<open>present\<close> or \<open>absent\<close>,
  and the sequence is the one the two-pass scheme of the specification computes
  (\<open>spec_score\<close>: remaining counts built from the answer, pass 1 marking exact
  matches and decrementing, pass 2 scanning left to right over the other
  positions and marking \<open>present\<close> exactly when the remaining count is positive).
  The letters need not be upper case.
\<close>

theorem scoreGuess_two_pass:
  assumes "length guess = WORD_LENGTH" and "length ans = WORD_LENGTH"
  shows "length (scoreGuess guess ans) = 5 \<and>
         set (scoreGuess guess ans) \<subseteq> {Correct, Present, Absent} \<and>
         scoreGuess guess ans = spec_score guess ans"
proof -
  have eq: "scoreGuess guess ans = spec_score guess ans"
    using assms by (rule scoreGuess_eq_spec)
  have "length (scoreGuess guess ans) = 5"
    using length_scoreGuess[of guess ans] by (simp add: WORD_LENGTH_def)
  moreover have "set (scoreGuess guess ans) \<subseteq> {Correct, Present, Absent}"
    unfolding eq spec_score_def by (rule set_spec_pass2)
  ultimately show ?thesis using eq by simp
qed

theorem scoreGuess_two_pass_witness:
  "length ''SPEED'' = WORD_LENGTH \<and> length ''ERASE'' = WORD_LENGTH \<and>
   length (scoreGuess ''SPEED'' ''ERASE'') = 5 \<and>
   set (scoreGuess ''SPEED'' ''ERASE'') \<subseteq> {Correct, Present, Absent} \<and>
   scoreGuess ''SPEED'' ''ERASE'' = spec_score ''SPEED'' ''ERASE''"
proof -
  have g: "length ''SPEED'' = WORD_LENGTH" and a: "length ''ERASE'' = WORD_LENGTH"
    by (simp_all add: WORD_LENGTH_def)
  show ?thesis
    using g a scoreGuess_two_pass[OF g a] by blast
qed

text \<open>
  Claim C3 says that \<open>scoreGuess("TRACE", "CRANE")\<close> is
  [absent, correct, present, absent, correct]. It is not: the letter A of the
  guess stands at the position it has in the answer, and C occurs in the answer.
\<close>

theorem TRACE_against_CRANE_is_not_the_claimed_array:
  "scoreGuess ''TRACE'' ''CRANE'' \<noteq> [Absent, Correct, Present, Absent, Correct]"
  by code_simp

text \<open>
  Claim C3, amended: \<open>scoreGuess("TRACE", "CRANE")\<close> returns
  [absent, correct, correct, present, correct].
\<close>

theorem scoreGuess_TRACE_CRANE:
  "scoreGuess ''TRACE'' ''CRANE'' = [Absent, Correct, Correct, Present, Correct]"
  by code_simp

text \<open>
  Claim C10. \<open>scoreGuess\<close> returns an array of five evaluations for every pair of
  strings (it has no failing branch). For a guess and an answer of five letters
  the result is five times \<open>correct\<close> if and only if the guess equals the answer,
  and a position whose letter does not occur in the answer is \<open>absent\<close>: the
  lookup of a letter without a count is \<^verbatim>\<open>undefined\<close>, and
  \<^verbatim>\<open>undefined > 0\<close> is false.
\<close>

theorem scoreGuess_all_correct_iff:
  "length (scoreGuess guess ans) = WORD_LENGTH \<and>
   (length guess = WORD_LENGTH \<and> length ans = WORD_LENGTH \<longrightarrow>
      (scoreGuess guess ans = [Correct, Correct, Correct, Correct, Correct] \<longleftrightarrow> guess = ans) \<and>
      (\<forall>i<WORD_LENGTH. guess ! i \<notin> set ans \<longrightarrow> scoreGuess guess ans ! i = Absent))"
proof (intro conjI impI)
  show "length (scoreGuess guess ans) = WORD_LENGTH" by (rule length_scoreGuess)
next
  assume len: "length guess = WORD_LENGTH \<and> length ans = WORD_LENGTH"
  then have eq: "scoreGuess guess ans = spec_score guess ans"
    by (simp add: scoreGuess_eq_spec)
  have l: "length guess = length ans" using len by simp
  have r: "replicate (length guess) Correct = [Correct, Correct, Correct, Correct, Correct]"
    using len by (simp add: WORD_LENGTH_def numeral_eq_Suc)
  show "(scoreGuess guess ans = [Correct, Correct, Correct, Correct, Correct]) = (guess = ans)"
    using spec_score_all_Correct[OF l] by (simp add: eq r)
  show "\<forall>i<WORD_LENGTH. guess ! i \<notin> set ans \<longrightarrow> scoreGuess guess ans ! i = Absent"
    using spec_score_not_in_answer[OF l] len by (simp add: eq)
qed

theorem scoreGuess_all_correct_iff_witness:
  "length ''CRANE'' = WORD_LENGTH \<and> length ''QUICK'' = WORD_LENGTH \<and>
   scoreGuess ''CRANE'' ''CRANE'' = [Correct, Correct, Correct, Correct, Correct] \<and>
   scoreGuess ''QUICK'' ''CRANE'' \<noteq> [Correct, Correct, Correct, Correct, Correct] \<and>
   (2::nat) < WORD_LENGTH \<and> ''QUICK'' ! 2 \<notin> set ''CRANE'' \<and>
   scoreGuess ''QUICK'' ''CRANE'' ! 2 = Absent"
  using scoreGuess_all_correct_iff[of "''CRANE''" "''CRANE''"]
    scoreGuess_all_correct_iff[of "''QUICK''" "''CRANE''"]
  by (simp add: WORD_LENGTH_def)

lemma count_list_card: "count_list xs x = card {i. i < length xs \<and> xs ! i = x}"
proof -
  have "{i. i < length xs \<and> x = xs ! i} = {i. i < length xs \<and> xs ! i = x}" by auto
  then show ?thesis
    by (simp add: count_list_eq_length_filter length_filter_conv_card)
qed

text \<open>
  Claim C2. For a guess and an answer of five letters and every letter \<open>L\<close>:
  the number of positions of \<open>L\<close> in the guess that \<open>scoreGuess\<close> marks
  \<open>present\<close> or \<open>correct\<close> is at most the number of occurrences of \<open>L\<close> in the
  answer; a position where guess and answer agree is always \<open>correct\<close>
  (positional matches take their count first); of two positions of the same
  letter that are not positional matches, the later one is \<open>present\<close> only if the
  earlier one is (earlier positions take the remaining count first); every
  position that is neither \<open>present\<close> nor \<open>correct\<close> is \<open>absent\<close>. In particular,
  when \<open>L\<close> occurs twice in the guess and once in the answer, at most one
  occurrence is marked \<open>present\<close> or \<open>correct\<close> and at least one is \<open>absent\<close>.
\<close>
theorem scoreGuess_duplicate_letters:
  assumes "length guess = WORD_LENGTH" and "length ans = WORD_LENGTH"
  shows
    "card {i. i < WORD_LENGTH \<and> guess ! i = L \<and>
              (scoreGuess guess ans ! i = Present \<or> scoreGuess guess ans ! i = Correct)}
       \<le> count_list ans L \<and>
     (\<forall>i<WORD_LENGTH. guess ! i = ans ! i \<longrightarrow> scoreGuess guess ans ! i = Correct) \<and>
     (\<forall>i j. i < j \<and> j < WORD_LENGTH \<and> guess ! i = guess ! j \<and> guess ! i \<noteq> ans ! i \<and>
            scoreGuess guess ans ! j = Present \<longrightarrow> scoreGuess guess ans ! i = Present) \<and>
     (\<forall>i<WORD_LENGTH. scoreGuess guess ans ! i \<noteq> Present \<and> scoreGuess guess ans ! i \<noteq> Correct
            \<longrightarrow> scoreGuess guess ans ! i = Absent) \<and>
     (count_list guess L = 2 \<and> count_list ans L = 1 \<longrightarrow>
        card {i. i < WORD_LENGTH \<and> guess ! i = L \<and>
                 (scoreGuess guess ans ! i = Present \<or> scoreGuess guess ans ! i = Correct)} \<le> 1 \<and>
        1 \<le> card {i. i < WORD_LENGTH \<and> guess ! i = L \<and> scoreGuess guess ans ! i = Absent})"
proof -
  let ?sc = "scoreGuess guess ans"
  let ?marked = "{i. i < WORD_LENGTH \<and> guess ! i = L \<and> (?sc ! i = Present \<or> ?sc ! i = Correct)}"
  let ?absent = "{i. i < WORD_LENGTH \<and> guess ! i = L \<and> ?sc ! i = Absent}"
  have eq: "?sc = spec_score guess ans"
    using assms by (rule scoreGuess_eq_spec)
  have l: "length guess = length ans" using assms by simp
  have ls: "length guess = length ?sc" using assms by (simp add: length_scoreGuess)
  have bound: "card ?marked \<le> count_list ans L"
  proof -
    have "marked_count L guess ?sc \<le> count_list ans L"
      unfolding eq by (rule marked_count_spec_score[OF l])
    then show ?thesis
      using marked_count_card[OF ls, of L] assms by simp
  qed
  have exact: "\<forall>i<WORD_LENGTH. guess ! i = ans ! i \<longrightarrow> ?sc ! i = Correct"
    using spec_pass2_nth_Correct[OF l] assms by (simp add: eq spec_score_def)
  have earlier: "\<forall>i j. i < j \<and> j < WORD_LENGTH \<and> guess ! i = guess ! j \<and> guess ! i \<noteq> ans ! i \<and>
            ?sc ! j = Present \<longrightarrow> ?sc ! i = Present"
  proof (intro allI impI)
    fix i j
    assume h: "i < j \<and> j < WORD_LENGTH \<and> guess ! i = guess ! j \<and> guess ! i \<noteq> ans ! i \<and>
            ?sc ! j = Present"
    then have "spec_pass2 guess ans (spec_pass1 guess ans (count_list ans)) ! i = Present"
      using assms by (intro spec_pass2_earlier_first[OF l, of i j]) (auto simp: eq spec_score_def)
    then show "?sc ! i = Present" by (simp add: eq spec_score_def)
  qed
  have others: "\<forall>i<WORD_LENGTH. ?sc ! i \<noteq> Present \<and> ?sc ! i \<noteq> Correct \<longrightarrow> ?sc ! i = Absent"
  proof (intro allI impI)
    fix i assume i: "i < WORD_LENGTH" and n: "?sc ! i \<noteq> Present \<and> ?sc ! i \<noteq> Correct"
    have "?sc ! i \<in> set ?sc" using i by (simp add: length_scoreGuess)
    moreover have "set ?sc \<subseteq> {Correct, Present, Absent}"
      unfolding eq spec_score_def by (rule set_spec_pass2)
    ultimately show "?sc ! i = Absent" using n by auto
  qed
  have twice: "card ?marked \<le> 1 \<and> 1 \<le> card ?absent"
    if c: "count_list guess L = 2 \<and> count_list ans L = 1"
  proof -
    have m1: "card ?marked \<le> 1" using bound c by simp
    have "{i. i < length guess \<and> guess ! i = L} = ?marked \<union> ?absent"
      using others assms by auto
    then have "card {i. i < length guess \<and> guess ! i = L} \<le> card ?marked + card ?absent"
      by (simp add: card_Un_le)
    then have "2 \<le> card ?marked + card ?absent"
      using c by (simp add: count_list_card)
    with m1 show ?thesis by simp
  qed
  from bound exact earlier others twice show ?thesis by blast
qed

theorem scoreGuess_duplicate_letters_witness:
  "length ''SPEED'' = WORD_LENGTH \<and> length ''ABIDE'' = WORD_LENGTH \<and>
   count_list ''SPEED'' CHR ''E'' = 2 \<and> count_list ''ABIDE'' CHR ''E'' = 1 \<and>
   scoreGuess ''SPEED'' ''ABIDE'' = [Absent, Absent, Present, Absent, Present] \<and>
   card {i. i < WORD_LENGTH \<and> ''SPEED'' ! i = CHR ''E'' \<and>
            (scoreGuess ''SPEED'' ''ABIDE'' ! i = Present \<or>
             scoreGuess ''SPEED'' ''ABIDE'' ! i = Correct)} \<le> 1 \<and>
   1 \<le> card {i. i < WORD_LENGTH \<and> ''SPEED'' ! i = CHR ''E'' \<and>
                 scoreGuess ''SPEED'' ''ABIDE'' ! i = Absent}"
proof -
  have g: "length ''SPEED'' = WORD_LENGTH" and a: "length ''ABIDE'' = WORD_LENGTH"
    by (simp_all add: WORD_LENGTH_def)
  have c: "count_list ''SPEED'' CHR ''E'' = 2 \<and> count_list ''ABIDE'' CHR ''E'' = 1"
    by simp
  have v: "scoreGuess ''SPEED'' ''ABIDE'' = [Absent, Absent, Present, Absent, Present]"
    by code_simp
  show ?thesis
    using g a c v scoreGuess_duplicate_letters[OF g a, of "CHR ''E''"] by blast
qed

section \<open>Verification of the keyboard hint aggregator\<close>

lemma replaced_or_kept_refl: "replaced_or_kept h h"
  by (simp add: replaced_or_kept_def)

lemma priority_greater_trans:
  "priority_greater b a \<Longrightarrow> priority_greater c b \<Longrightarrow> priority_greater c a"
  by (cases a; cases b; cases c) auto

lemma replaced_or_kept_trans:
  "replaced_or_kept a b \<Longrightarrow> replaced_or_kept b c \<Longrightarrow> replaced_or_kept a c"
  unfolding replaced_or_kept_def
  by (cases a; cases b; cases c) (auto dest: priority_greater_trans)

lemma hint_step_replaced_or_kept:
  "replaced_or_kept (map_of ks k) (map_of (hint_step scoredStates x ks) k)"
proof (cases x)
  case (Pair index letter)
  show ?thesis
    unfolding Pair hint_step_def
    by (auto simp: replaced_or_kept_def Let_def update_conv' split: option.splits)
qed

lemma fold_hint_step_replaced_or_kept:
  "replaced_or_kept (map_of ks k) (map_of (fold (hint_step scoredStates) xs ks) k)"
proof (induction xs arbitrary: ks)
  case Nil
  show ?case by (simp add: replaced_or_kept_refl)
next
  case (Cons x xs)
  show ?case
    using hint_step_replaced_or_kept[of ks k scoredStates x] Cons[of "hint_step scoredStates x ks"]
    by (auto intro: replaced_or_kept_trans)
qed

lemma updateKeyboardStates_replaced_or_kept:
  "replaced_or_kept (map_of (keyStates s) k)
     (map_of (keyStates (updateKeyboardStates guessLetters scoredStates s)) k)"
  by (simp add: updateKeyboardStates_def fold_hint_step_replaced_or_kept)

lemma hint_updates_replaced_or_kept:
  "replaced_or_kept (map_of (keyStates s) k) (map_of (keyStates (hint_updates updates s)) k)"
proof (induction updates arbitrary: s)
  case Nil
  show ?case by (simp add: hint_updates_def replaced_or_kept_refl)
next
  case (Cons u us)
  obtain ls sc where u: "u = (ls, sc)" by (cases u)
  have "hint_updates (u # us) s = hint_updates us (updateKeyboardStates ls sc s)"
    by (simp add: hint_updates_def u)
  then show ?case
    using updateKeyboardStates_replaced_or_kept[of s k ls sc] Cons[of "updateKeyboardStates ls sc s"]
    by (auto intro: replaced_or_kept_trans)
qed

lemma replaced_or_kept_priority:
  assumes "replaced_or_kept old new"
  shows "hint_priority old \<le> hint_priority new"
proof (cases old)
  case None
  then show ?thesis by (simp add: hint_priority_def)
next
  case o: (Some a)
  show ?thesis
  proof (cases new)
    case None
    with assms o show ?thesis by (simp add: replaced_or_kept_def)
  next
    case (Some b)
    with assms o show ?thesis
      by (cases a; cases b) (auto simp: replaced_or_kept_def hint_priority_def)
  qed
qed

lemma replaced_or_kept_Correct:
  assumes "replaced_or_kept (Some Correct) new"
  shows "new = Some Correct"
proof (cases new)
  case None
  with assms show ?thesis by (simp add: replaced_or_kept_def)
next
  case (Some b)
  with assms show ?thesis
    by (cases b) (auto simp: replaced_or_kept_def)
qed

text \<open>
  Claim C7. For every hint mapping, every sequence of updates by
  \<open>updateKeyboardStates\<close> and every letter: the hint after the updates is the
  hint before, unless the letter had no hint or the priority of the new hint
  (absent 1, present 2, correct 3) is strictly greater than that of the old one;
  the priority of the letter's hint never decreases; and a letter mapped to
  \<open>correct\<close> stays mapped to \<open>correct\<close>.
\<close>

theorem hints_never_move_backward:
  "(map_of (keyStates (hint_updates updates s)) k = map_of (keyStates s) k \<or>
    map_of (keyStates s) k = None \<or>
    priority_greater (Option.bind (map_of (keyStates (hint_updates updates s)) k) statePriority)
                     (Option.bind (map_of (keyStates s) k) statePriority)) \<and>
   hint_priority (map_of (keyStates s) k)
     \<le> hint_priority (map_of (keyStates (hint_updates updates s)) k) \<and>
   (map_of (keyStates s) k = Some Correct \<longrightarrow>
      map_of (keyStates (hint_updates updates s)) k = Some Correct)"
proof -
  have r: "replaced_or_kept (map_of (keyStates s) k) (map_of (keyStates (hint_updates updates s)) k)"
    by (rule hint_updates_replaced_or_kept)
  from r have "hint_priority (map_of (keyStates s) k)
      \<le> hint_priority (map_of (keyStates (hint_updates updates s)) k)"
    by (rule replaced_or_kept_priority)
  moreover have "map_of (keyStates s) k = Some Correct \<longrightarrow>
      map_of (keyStates (hint_updates updates s)) k = Some Correct"
    using r by (auto dest: replaced_or_kept_Correct)
  ultimately show ?thesis
    using r unfolding replaced_or_kept_def by blast
qed

theorem hints_never_move_backward_witness:
  "map_of (keyStates ((createNewState ''CRANE'')\<lparr>keyStates := [(CHR ''e'', Correct), (CHR ''a'', Absent)]\<rparr>))
     CHR ''e'' = Some Correct \<and>
   map_of (keyStates (hint_updates [(''EAGLE'', [Present, Present, Absent, Absent, Absent])]
     ((createNewState ''CRANE'')\<lparr>keyStates := [(CHR ''e'', Correct), (CHR ''a'', Absent)]\<rparr>)))
     CHR ''e'' = Some Correct"
proof -
  let ?s = "(createNewState ''CRANE'')\<lparr>keyStates := [(CHR ''e'', Correct), (CHR ''a'', Absent)]\<rparr>"
  have h: "map_of (keyStates ?s) CHR ''e'' = Some Correct"
    by simp
  show ?thesis
    using h hints_never_move_backward[of "[(''EAGLE'', [Present, Present, Absent, Absent, Absent])]" ?s "CHR ''e''"]
    by blast
qed

section \<open>Verification of the game state machine\<close>

lemma isLetterKey_enter: "\<not> isLetterKey ''enter''"
  by (simp add: isLetterKey_def)

lemma toLowerCase_enter: "toLowerCase ''enter'' = ''enter''"
  by (simp add: toLowerCase_def toLowerCase_char_def)

lemma handleKeyInput_enter:
  "status (state p) = Active \<Longrightarrow> handleKeyInput V ''enter'' p = submitGuess V p"
  by (simp add: handleKeyInput_def isLetterKey_enter toLowerCase_enter)

lemma handleKeyInput_part_000_enter:
  "status (state p) = Active \<Longrightarrow> handleKeyInput_part_000 V ''enter'' p = submitGuess_part_000 V p"
  by (simp add: handleKeyInput_part_000_def isLetterKey_enter toLowerCase_enter)

lemma handleKeyInput_terminal:
  "status (state p) \<noteq> Active \<Longrightarrow> handleKeyInput V key p = (Normal, p)"
  by (simp add: handleKeyInput_def)

lemma handleKeyInput_part_000_terminal:
  "status (state p) \<noteq> Active \<Longrightarrow> handleKeyInput_part_000 V key p = (Normal, p)"
  by (simp add: handleKeyInput_part_000_def)

lemma handleKeys_terminal:
  "status (state p) \<noteq> Active \<Longrightarrow> handleKeys V keys p = p"
  unfolding handleKeys_def
  by (induction keys) (simp_all add: handleKeyInput_terminal)

lemma handleKeys_part_000_terminal:
  "status (state p) \<noteq> Active \<Longrightarrow> handleKeys_part_000 V keys p = p"
  unfolding handleKeys_part_000_def
  by (induction keys) (simp_all add: handleKeyInput_part_000_terminal)

text \<open>
  Claim C4. In every game state whose status is \<open>won\<close> or \<open>lost\<close>, every key
  event (a letter, backspace, enter or anything else), and every sequence of key
  events, returns normally and leaves the whole page unchanged: \<open>guesses\<close>,
  \<open>evaluations\<close>, \<open>currentRow\<close>, \<open>currentCol\<close>, \<open>status\<close> and all other fields,
  in both variants. The claim speaks of reachable states; the theorem holds for
  all states.
\<close>

theorem terminal_state_ignores_input:
  assumes "status (state p) = Won \<or> status (state p) = Lost"
  shows "handleKeyInput isValidGuess key p = (Normal, p) \<and>
         handleKeyInput_part_000 isValidGuess key p = (Normal, p) \<and>
         handleKeys isValidGuess keys p = p \<and>
         handleKeys_part_000 isValidGuess keys p = p"
proof -
  have "status (state p) \<noteq> Active" using assms by auto
  then show ?thesis
    by (simp add: handleKeyInput_terminal handleKeyInput_part_000_terminal
        handleKeys_terminal handleKeys_part_000_terminal)
qed

theorem terminal_state_ignores_input_witness:
  "status (state (handleKeys example_dictionary
       [''c'', ''r'', ''a'', ''n'', ''e'', ''enter''] fresh_page)) = Won \<and>
   handleKeyInput example_dictionary ''Backspace''
     (handleKeys example_dictionary [''c'', ''r'', ''a'', ''n'', ''e'', ''enter''] fresh_page)
   = (Normal, handleKeys example_dictionary [''c'', ''r'', ''a'', ''n'', ''e'', ''enter''] fresh_page)"
proof -
  let ?p = "handleKeys example_dictionary [''c'', ''r'', ''a'', ''n'', ''e'', ''enter''] fresh_page"
  have w: "status (state ?p) = Won" by code_simp
  then have "status (state ?p) = Won \<or> status (state ?p) = Lost" by simp
  from terminal_state_ignores_input[OF this, of example_dictionary "''Backspace''"] w
  show ?thesis by simp
qed

lemma submitGuess_not_enough:
  "currentCol (state p) < WORD_LENGTH \<Longrightarrow>
   submitGuess V p = (Normal, p\<lparr>statusEl := NotEnoughLetters\<rparr>)"
  by (simp add: submitGuess_def)

lemma submitGuess_part_000_not_enough:
  "currentCol (state p) < WORD_LENGTH \<Longrightarrow>
   submitGuess_part_000 V p = (Normal, p\<lparr>statusEl := NotEnoughLetters\<rparr>)"
  by (simp add: submitGuess_part_000_def)

lemma submitGuess_invalid:
  "\<not> currentCol (state p) < WORD_LENGTH \<Longrightarrow> currentRow (state p) < length (guesses (state p)) \<Longrightarrow>
   concat (guesses (state p) ! currentRow (state p)) \<noteq> ''ASDEV'' \<Longrightarrow>
   \<not> V (concat (guesses (state p) ! currentRow (state p))) \<Longrightarrow>
   submitGuess V p = (Normal, p\<lparr>statusEl := WordNotInList\<rparr>)"
  by (simp add: submitGuess_def Let_def)

lemma submitGuess_part_000_invalid:
  "\<not> currentCol (state p) < WORD_LENGTH \<Longrightarrow> currentRow (state p) < length (guesses (state p)) \<Longrightarrow>
   \<not> V (concat (guesses (state p) ! currentRow (state p))) \<Longrightarrow>
   submitGuess_part_000 V p = (Normal, p\<lparr>statusEl := WordNotInList\<rparr>)"
  by (simp add: submitGuess_part_000_def Let_def)

lemma submitGuess_ASDEV:
  "\<not> currentCol (state p) < WORD_LENGTH \<Longrightarrow> currentRow (state p) < length (guesses (state p)) \<Longrightarrow>
   concat (guesses (state p) ! currentRow (state p)) = ''ASDEV'' \<Longrightarrow>
   submitGuess V p = toggleDeveloperMode p"
  by (simp add: submitGuess_def Let_def)

lemma submitGuess_valid:
  "\<not> currentCol (state p) < WORD_LENGTH \<Longrightarrow> currentRow (state p) < length (guesses (state p)) \<Longrightarrow>
   concat (guesses (state p) ! currentRow (state p)) \<noteq> ''ASDEV'' \<Longrightarrow>
   V (concat (guesses (state p) ! currentRow (state p))) \<Longrightarrow>
   submitGuess V p = score_and_advance (concat (guesses (state p) ! currentRow (state p))) p"
  by (simp add: submitGuess_def Let_def)

lemma submitGuess_part_000_valid:
  "\<not> currentCol (state p) < WORD_LENGTH \<Longrightarrow> currentRow (state p) < length (guesses (state p)) \<Longrightarrow>
   V (concat (guesses (state p) ! currentRow (state p))) \<Longrightarrow>
   submitGuess_part_000 V p = score_and_advance (concat (guesses (state p) ! currentRow (state p))) p"
  by (simp add: submitGuess_part_000_def Let_def)

text \<open>
  Claim C5 says that a submission whose joined word fails the validity check of
  the word source leaves the whole game state unchanged. In \<^verbatim>\<open>src/game.js\<close> the
  word ASDEV is taken by the developer-mode branch before the validity check is
  asked: with a dictionary that does not hold ASDEV, submitting the full row
  ASDEV of an active game toggles \<open>developerMode\<close>, clears the row and resets
  \<open>currentCol\<close>.
\<close>

theorem invalid_ASDEV_submission_changes_state:
  "status (state asdev_page) = Active \<and>
   \<not> currentCol (state asdev_page) < WORD_LENGTH \<and>
   concat (guesses (state asdev_page) ! currentRow (state asdev_page)) = ''ASDEV'' \<and>
   \<not> example_dictionary (concat (guesses (state asdev_page) ! currentRow (state asdev_page))) \<and>
   developerMode (state asdev_page) = False \<and>
   developerMode (state (snd (handleKeyInput example_dictionary ''enter'' asdev_page))) = True \<and>
   currentCol (state asdev_page) = 5 \<and>
   currentCol (state (snd (handleKeyInput example_dictionary ''enter'' asdev_page))) = 0 \<and>
   guesses (state (snd (handleKeyInput example_dictionary ''enter'' asdev_page)))
     \<noteq> guesses (state asdev_page)"
  by code_simp

text \<open>
  Claim C5, amended. In every active game state a submission with fewer than
  five letters filled (\<open>currentCol < 5\<close>) only sets the status message "Not
  enough letters.", and a submission of a full row whose joined word fails the
  validity check and, in \<^verbatim>\<open>src/game.js\<close>, is not the developer-mode string
  ASDEV, only sets the status message "Word is not in the list."; in both cases
  the game state (\<open>guesses\<close>, \<open>evaluations\<close>, \<open>currentRow\<close>, \<open>currentCol\<close>,
  \<open>status\<close>, \<open>keyStates\<close>, \<open>developerMode\<close>) is unchanged. The older variant
  has no exception. The current row is assumed to exist
  (\<open>currentRow < length guesses\<close>), as it does in every valid state.
\<close>

theorem rejected_submission_only_sets_message:
  assumes "status (state p) = Active"
  shows
    "(currentCol (state p) < WORD_LENGTH \<longrightarrow>
        handleKeyInput isValidGuess ''enter'' p = (Normal, p\<lparr>statusEl := NotEnoughLetters\<rparr>) \<and>
        handleKeyInput_part_000 isValidGuess ''enter'' p = (Normal, p\<lparr>statusEl := NotEnoughLetters\<rparr>)) \<and>
     (\<not> currentCol (state p) < WORD_LENGTH \<and>
      currentRow (state p) < length (guesses (state p)) \<and>
      \<not> isValidGuess (concat (guesses (state p) ! currentRow (state p))) \<longrightarrow>
        handleKeyInput_part_000 isValidGuess ''enter'' p = (Normal, p\<lparr>statusEl := WordNotInList\<rparr>) \<and>
        (concat (guesses (state p) ! currentRow (state p)) \<noteq> ''ASDEV'' \<longrightarrow>
           handleKeyInput isValidGuess ''enter'' p = (Normal, p\<lparr>statusEl := WordNotInList\<rparr>)))"
  using assms
  by (simp add: handleKeyInput_enter handleKeyInput_part_000_enter submitGuess_not_enough
      submitGuess_part_000_not_enough submitGuess_invalid submitGuess_part_000_invalid)

theorem rejected_submission_only_sets_message_witness:
  "status (state tra_page) = Active \<and> currentCol (state tra_page) < WORD_LENGTH \<and>
   handleKeyInput example_dictionary ''enter'' tra_page
     = (Normal, tra_page\<lparr>statusEl := NotEnoughLetters\<rparr>) \<and>
   status (state quick_page) = Active \<and> \<not> currentCol (state quick_page) < WORD_LENGTH \<and>
   currentRow (state quick_page) < length (guesses (state quick_page)) \<and>
   \<not> example_dictionary (concat (guesses (state quick_page) ! currentRow (state quick_page))) \<and>
   concat (guesses (state quick_page) ! currentRow (state quick_page)) \<noteq> ''ASDEV'' \<and>
   handleKeyInput example_dictionary ''enter'' quick_page
     = (Normal, quick_page\<lparr>statusEl := WordNotInList\<rparr>)"
proof -
  have a1: "status (state tra_page) = Active" by code_simp
  have a2: "currentCol (state tra_page) < WORD_LENGTH" by code_simp
  have b1: "status (state quick_page) = Active" by code_simp
  have b2: "\<not> currentCol (state quick_page) < WORD_LENGTH" by code_simp
  have b3: "currentRow (state quick_page) < length (guesses (state quick_page))" by code_simp
  have b4: "\<not> example_dictionary (concat (guesses (state quick_page) ! currentRow (state quick_page)))"
    by code_simp
  have b5: "concat (guesses (state quick_page) ! currentRow (state quick_page)) \<noteq> ''ASDEV''"
    by code_simp
  from rejected_submission_only_sets_message[OF a1, of example_dictionary]
    rejected_submission_only_sets_message[OF b1, of example_dictionary]
    a1 a2 b1 b2 b3 b4 b5
  show ?thesis by blast
qed

lemma score_and_advance_fields:
  "answer (state (snd (score_and_advance g p))) = answer (state p)"
  "guesses (state (snd (score_and_advance g p))) = guesses (state p)"
  "evaluations (state (snd (score_and_advance g p))) =
     array_set None (evaluations (state p)) (currentRow (state p))
       (Some (scoreGuess g (answer (state p))))"
  "developerMode (state (snd (score_and_advance g p))) = developerMode (state p)"
  "keyStates (state (snd (score_and_advance g p))) =
     keyStates (updateKeyboardStates g (scoreGuess g (answer (state p))) (state p))"
  "currentRow (state (snd (score_and_advance g p))) =
     (if g = answer (state p) then currentRow (state p) else currentRow (state p) + 1)"
  "currentCol (state (snd (score_and_advance g p))) =
     (if g = answer (state p) then currentCol (state p) else 0)"
  "status (state (snd (score_and_advance g p))) =
     (if g = answer (state p) then Won
      else if MAX_ROWS \<le> currentRow (state p) + 1 then Lost else status (state p))"
  "statusEl (snd (score_and_advance g p)) =
     (if g = answer (state p) then YouGotIt
      else if MAX_ROWS \<le> currentRow (state p) + 1 then GameOver (toUpperCase (answer (state p)))
      else NoMessage)"
  by (simp_all add: score_and_advance_def Let_def updateKeyboardStates_def)

lemma score_and_advance_completion:
  "fst (score_and_advance g p) = render (state (snd (score_and_advance g p)))"
  by (simp add: score_and_advance_def Let_def)

lemma toggleDeveloperMode_fields:
  "answer (state (snd (toggleDeveloperMode p))) = answer (state p)"
  "guesses (state (snd (toggleDeveloperMode p))) =
     array_set [] (guesses (state p)) (currentRow (state p)) (replicate WORD_LENGTH [])"
  "evaluations (state (snd (toggleDeveloperMode p))) =
     array_set None (evaluations (state p)) (currentRow (state p))
       (Some (replicate WORD_LENGTH Empty))"
  "developerMode (state (snd (toggleDeveloperMode p))) = (\<not> developerMode (state p))"
  "keyStates (state (snd (toggleDeveloperMode p))) = keyStates (state p)"
  "currentRow (state (snd (toggleDeveloperMode p))) = currentRow (state p)"
  "currentCol (state (snd (toggleDeveloperMode p))) = 0"
  "status (state (snd (toggleDeveloperMode p))) = status (state p)"
  "statusEl (snd (toggleDeveloperMode p)) =
     (if developerMode (state p) then DeveloperModeDisabled else WelcomeDeveloper)"
  by (simp_all add: toggleDeveloperMode_def Let_def)

lemma toggleDeveloperMode_completion:
  "fst (toggleDeveloperMode p) = render (state (snd (toggleDeveloperMode p)))"
  by (simp add: toggleDeveloperMode_def Let_def)

lemma array_set_in_range: "i < length xs \<Longrightarrow> array_set hole xs i v = xs[i := v]"
  by (simp add: array_set_def)

lemma render_valid: "valid_state s \<Longrightarrow> render s = Normal"
proof -
  assume v: "valid_state s"
  have all: "list_all (\<lambda>row. case row of None \<Rightarrow> False | Some r \<Rightarrow> length r = WORD_LENGTH)
      (evaluations s)"
    using v by (simp add: valid_state_def)
  have "None \<notin> set (evaluations s)"
  proof
    assume "None \<in> set (evaluations s)"
    with all have "case None of None \<Rightarrow> False | Some (r :: evaluation list) \<Rightarrow> length r = WORD_LENGTH"
      unfolding list_all_iff by blast
    then show False by simp
  qed
  then have "None \<notin> set (take MAX_ROWS (evaluations s))"
    using set_take_subset[of MAX_ROWS "evaluations s"] by blast
  then show ?thesis
    using v by (simp add: render_def valid_state_def)
qed

lemma valid_state_createNewState: "valid_state (createNewState a)"
  by (simp add: valid_state_def createNewState_def list_all_iff MAX_ROWS_def)

lemma list_all_update:
  "list_all P xs \<Longrightarrow> P r \<Longrightarrow> list_all P (xs[i := r])"
  unfolding list_all_iff
  using set_update_subset_insert[of xs i r] by auto

lemma list_all_nth: "list_all P xs \<Longrightarrow> i < length xs \<Longrightarrow> P (xs ! i)"
  by (simp add: list_all_length)

lemma valid_stateI:
  assumes "length (guesses s) = MAX_ROWS" and "length (evaluations s) = MAX_ROWS"
    and "list_all (\<lambda>row. length row = WORD_LENGTH) (guesses s)"
    and "list_all (\<lambda>row. case row of None \<Rightarrow> False | Some r \<Rightarrow> length r = WORD_LENGTH)
           (evaluations s)"
    and "currentRow s \<le> MAX_ROWS" and "currentCol s \<le> WORD_LENGTH"
    and "status s = Active \<Longrightarrow> currentRow s < MAX_ROWS"
  shows "valid_state s"
  using assms by (simp add: valid_state_def)

lemma valid_stateD:
  assumes "valid_state s"
  shows "length (guesses s) = MAX_ROWS" and "length (evaluations s) = MAX_ROWS"
    and "list_all (\<lambda>row. length row = WORD_LENGTH) (guesses s)"
    and "list_all (\<lambda>row. case row of None \<Rightarrow> False | Some r \<Rightarrow> length r = WORD_LENGTH)
           (evaluations s)"
    and "currentRow s \<le> MAX_ROWS" and "currentCol s \<le> WORD_LENGTH"
    and "status s = Active \<Longrightarrow> currentRow s < MAX_ROWS"
  using assms by (simp_all add: valid_state_def)

lemma letter_input_fields:
  assumes "currentCol (state p) < WORD_LENGTH" and "currentRow (state p) < length (guesses (state p))"
  shows "fst (letter_input key p) = render (state (snd (letter_input key p)))"
    and "answer (state (snd (letter_input key p))) = answer (state p)"
    and "guesses (state (snd (letter_input key p))) =
       (guesses (state p))[currentRow (state p) :=
          array_set [] (guesses (state p) ! currentRow (state p)) (currentCol (state p)) (toUpperCase key)]"
    and "evaluations (state (snd (letter_input key p))) = evaluations (state p)"
    and "currentRow (state (snd (letter_input key p))) = currentRow (state p)"
    and "currentCol (state (snd (letter_input key p))) = currentCol (state p) + 1"
    and "status (state (snd (letter_input key p))) = status (state p)"
  using assms by (simp_all add: letter_input_def Let_def)

lemma backspace_input_fields:
  assumes "0 < currentCol (state p)" and "currentRow (state p) < length (guesses (state p))"
  shows "fst (backspace_input p) = render (state (snd (backspace_input p)))"
    and "answer (state (snd (backspace_input p))) = answer (state p)"
    and "guesses (state (snd (backspace_input p))) =
       (guesses (state p))[currentRow (state p) :=
          array_set [] (guesses (state p) ! currentRow (state p)) (currentCol (state p) - 1) []]"
    and "evaluations (state (snd (backspace_input p))) = evaluations (state p)"
    and "currentRow (state (snd (backspace_input p))) = currentRow (state p)"
    and "currentCol (state (snd (backspace_input p))) = currentCol (state p) - 1"
    and "status (state (snd (backspace_input p))) = status (state p)"
  using assms by (simp_all add: backspace_input_def Let_def)

lemma valid_state_letter_input:
  assumes v: "valid_state (state p)" and act: "status (state p) = Active"
  shows "fst (letter_input key p) = Normal \<and> valid_state (state (snd (letter_input key p)))"
proof (cases "currentCol (state p) < WORD_LENGTH")
  case True
  note d = valid_stateD[OF v]
  have r: "currentRow (state p) < length (guesses (state p))"
    using d(1) d(7)[OF act] by simp
  note f = letter_input_fields[OF True r, of key]
  have "length (guesses (state p) ! currentRow (state p)) = WORD_LENGTH"
    using list_all_nth[OF d(3) r] .
  then have l: "length (array_set [] (guesses (state p) ! currentRow (state p)) (currentCol (state p))
      (toUpperCase key)) = WORD_LENGTH"
    using True by (simp add: array_set_def)
  have v': "valid_state (state (snd (letter_input key p)))"
  proof (rule valid_stateI)
    show "length (guesses (state (snd (letter_input key p)))) = MAX_ROWS"
      by (simp add: f(2-) d)
    show "length (evaluations (state (snd (letter_input key p)))) = MAX_ROWS"
      by (simp add: f(2-) d)
    show "list_all (\<lambda>row. length row = WORD_LENGTH) (guesses (state (snd (letter_input key p))))"
      unfolding f(3) by (rule list_all_update[OF d(3) l])
    show "list_all (\<lambda>row. case row of None \<Rightarrow> False | Some r \<Rightarrow> length r = WORD_LENGTH)
        (evaluations (state (snd (letter_input key p))))"
      unfolding f(4) by (rule d(4))
    show "currentRow (state (snd (letter_input key p))) \<le> MAX_ROWS"
      by (simp add: f(2-) d)
    show "currentCol (state (snd (letter_input key p))) \<le> WORD_LENGTH"
      using True by (simp add: f(2-))
    show "currentRow (state (snd (letter_input key p))) < MAX_ROWS"
      using d(7)[OF act] by (simp add: f(2-))
  qed
  from f(1) render_valid[OF v'] v' show ?thesis by simp
next
  case False
  then show ?thesis using v render_valid[OF v] by (simp add: letter_input_def)
qed

lemma valid_state_backspace_input:
  assumes v: "valid_state (state p)" and act: "status (state p) = Active"
  shows "fst (backspace_input p) = Normal \<and> valid_state (state (snd (backspace_input p)))"
proof (cases "0 < currentCol (state p)")
  case True
  note d = valid_stateD[OF v]
  have r: "currentRow (state p) < length (guesses (state p))"
    using d(1) d(7)[OF act] by simp
  note f = backspace_input_fields[OF True r]
  have "length (guesses (state p) ! currentRow (state p)) = WORD_LENGTH"
    using list_all_nth[OF d(3) r] .
  moreover have "currentCol (state p) - 1 < WORD_LENGTH"
    using d(6) True by simp
  ultimately have l: "length (array_set [] (guesses (state p) ! currentRow (state p))
      (currentCol (state p) - 1) []) = WORD_LENGTH"
    by (simp add: array_set_def)
  have v': "valid_state (state (snd (backspace_input p)))"
  proof (rule valid_stateI)
    show "length (guesses (state (snd (backspace_input p)))) = MAX_ROWS"
      by (simp add: f(2-) d)
    show "length (evaluations (state (snd (backspace_input p)))) = MAX_ROWS"
      by (simp add: f(2-) d)
    show "list_all (\<lambda>row. length row = WORD_LENGTH) (guesses (state (snd (backspace_input p))))"
      unfolding f(3) by (rule list_all_update[OF d(3) l])
    show "list_all (\<lambda>row. case row of None \<Rightarrow> False | Some r \<Rightarrow> length r = WORD_LENGTH)
        (evaluations (state (snd (backspace_input p))))"
      unfolding f(4) by (rule d(4))
    show "currentRow (state (snd (backspace_input p))) \<le> MAX_ROWS"
      by (simp add: f(2-) d)
    show "currentCol (state (snd (backspace_input p))) \<le> WORD_LENGTH"
      using d(6) by (simp add: f(2-))
    show "currentRow (state (snd (backspace_input p))) < MAX_ROWS"
      using d(7)[OF act] by (simp add: f(2-))
  qed
  from f(1) render_valid[OF v'] v' show ?thesis by simp
next
  case False
  then show ?thesis using v render_valid[OF v] by (simp add: backspace_input_def)
qed

lemma valid_state_toggleDeveloperMode:
  assumes v: "valid_state (state p)" and act: "status (state p) = Active"
  shows "fst (toggleDeveloperMode p) = Normal \<and> valid_state (state (snd (toggleDeveloperMode p)))"
proof -
  note d = valid_stateD[OF v]
  note f = toggleDeveloperMode_fields
  have r: "currentRow (state p) < length (guesses (state p))"
    "currentRow (state p) < length (evaluations (state p))"
    using d(1,2) d(7)[OF act] by simp_all
  have v': "valid_state (state (snd (toggleDeveloperMode p)))"
  proof (rule valid_stateI)
    show "length (guesses (state (snd (toggleDeveloperMode p)))) = MAX_ROWS"
      using r by (simp add: f d array_set_in_range)
    show "length (evaluations (state (snd (toggleDeveloperMode p)))) = MAX_ROWS"
      using r by (simp add: f d array_set_in_range)
    show "list_all (\<lambda>row. length row = WORD_LENGTH) (guesses (state (snd (toggleDeveloperMode p))))"
      unfolding f array_set_in_range[OF r(1)] by (rule list_all_update[OF d(3)]) simp
    show "list_all (\<lambda>row. case row of None \<Rightarrow> False | Some r \<Rightarrow> length r = WORD_LENGTH)
        (evaluations (state (snd (toggleDeveloperMode p))))"
      unfolding f array_set_in_range[OF r(2)] by (rule list_all_update[OF d(4)]) simp
    show "currentRow (state (snd (toggleDeveloperMode p))) \<le> MAX_ROWS"
      by (simp add: f d)
    show "currentCol (state (snd (toggleDeveloperMode p))) \<le> WORD_LENGTH"
      by (simp add: f)
    show "currentRow (state (snd (toggleDeveloperMode p))) < MAX_ROWS"
      using d(7)[OF act] by (simp add: f)
  qed
  from toggleDeveloperMode_completion[of p] render_valid[OF v'] v' show ?thesis by simp
qed

lemma valid_state_score_and_advance:
  assumes v: "valid_state (state p)" and act: "status (state p) = Active"
  shows "fst (score_and_advance g p) = Normal \<and> valid_state (state (snd (score_and_advance g p)))"
proof -
  note d = valid_stateD[OF v]
  note f = score_and_advance_fields
  have r: "currentRow (state p) < length (evaluations (state p))"
    using d(2) d(7)[OF act] by simp
  have v': "valid_state (state (snd (score_and_advance g p)))"
  proof (rule valid_stateI)
    show "length (guesses (state (snd (score_and_advance g p)))) = MAX_ROWS"
      by (simp add: f d)
    show "length (evaluations (state (snd (score_and_advance g p)))) = MAX_ROWS"
      using r by (simp add: f d array_set_in_range)
    show "list_all (\<lambda>row. length row = WORD_LENGTH) (guesses (state (snd (score_and_advance g p))))"
      by (simp add: f d)
    show "list_all (\<lambda>row. case row of None \<Rightarrow> False | Some r \<Rightarrow> length r = WORD_LENGTH)
        (evaluations (state (snd (score_and_advance g p))))"
      unfolding f array_set_in_range[OF r]
      by (rule list_all_update[OF d(4)]) (simp add: length_scoreGuess)
    show "currentRow (state (snd (score_and_advance g p))) \<le> MAX_ROWS"
      using d(7)[OF act] by (simp add: f)
    show "currentCol (state (snd (score_and_advance g p))) \<le> WORD_LENGTH"
      using d(6) by (simp add: f)
    show "currentRow (state (snd (score_and_advance g p))) < MAX_ROWS"
      if "status (state (snd (score_and_advance g p))) = Active"
      using that d(7)[OF act] by (simp add: f split: if_splits)
  qed
  from score_and_advance_completion[of g p] render_valid[OF v'] v' show ?thesis by simp
qed

lemma valid_state_submitGuess:
  assumes "valid_state (state p)" and "status (state p) = Active"
  shows "fst (submitGuess V p) = Normal \<and> valid_state (state (snd (submitGuess V p)))"
proof -
  have r: "currentRow (state p) < length (guesses (state p))"
    using valid_stateD(1,7)[OF assms(1)] assms(2) by simp
  show ?thesis
    using assms(1) r valid_state_toggleDeveloperMode[OF assms] valid_state_score_and_advance[OF assms]
    by (simp add: submitGuess_def Let_def)
qed

lemma valid_state_submitGuess_part_000:
  assumes "valid_state (state p)" and "status (state p) = Active"
  shows "fst (submitGuess_part_000 V p) = Normal \<and>
         valid_state (state (snd (submitGuess_part_000 V p)))"
proof -
  have r: "currentRow (state p) < length (guesses (state p))"
    using valid_stateD(1,7)[OF assms(1)] assms(2) by simp
  show ?thesis
    using assms(1) r valid_state_score_and_advance[OF assms]
    by (simp add: submitGuess_part_000_def Let_def)
qed

lemma valid_state_handleKeyInput:
  assumes "valid_state (state p)"
  shows "fst (handleKeyInput V key p) = Normal \<and> valid_state (state (snd (handleKeyInput V key p)))"
proof (cases "status (state p) = Active")
  case True
  show ?thesis
    using assms valid_state_letter_input[OF assms True] valid_state_backspace_input[OF assms True]
      valid_state_submitGuess[OF assms True]
    by (simp add: handleKeyInput_def)
next
  case False
  then show ?thesis using assms by (simp add: handleKeyInput_def)
qed

lemma valid_state_handleKeyInput_part_000:
  assumes "valid_state (state p)"
  shows "fst (handleKeyInput_part_000 V key p) = Normal \<and>
         valid_state (state (snd (handleKeyInput_part_000 V key p)))"
proof (cases "status (state p) = Active")
  case True
  show ?thesis
    using assms valid_state_letter_input[OF assms True] valid_state_backspace_input[OF assms True]
      valid_state_submitGuess_part_000[OF assms True]
    by (simp add: handleKeyInput_part_000_def)
next
  case False
  then show ?thesis using assms by (simp add: handleKeyInput_part_000_def)
qed

lemma valid_state_handleKeys:
  "valid_state (state p) \<Longrightarrow> valid_state (state (handleKeys V keys p))"
  unfolding handleKeys_def
  by (induction keys arbitrary: p) (simp_all add: valid_state_handleKeyInput)

lemma valid_state_handleKeys_part_000:
  "valid_state (state p) \<Longrightarrow> valid_state (state (handleKeys_part_000 V keys p))"
  unfolding handleKeys_part_000_def
  by (induction keys arbitrary: p) (simp_all add: valid_state_handleKeyInput_part_000)

text \<open>
  Claim C9. In \<^verbatim>\<open>src/game.js\<close>, in every valid active state whose current row
  is full and joins to the exact string ASDEV, a submission returns normally
  (\<^verbatim>\<open>render()\<close> included) whatever the validity check of the word source says:
  \<open>developerMode\<close> is toggled, the letters of the current row are reset to empty
  strings and its evaluations to \<open>empty\<close>, \<open>currentCol\<close> is reset to 0, and
  \<open>currentRow\<close> (no attempt is consumed), \<open>status\<close>, the other rows,
  \<open>keyStates\<close> and the answer are unchanged.
\<close>

theorem ASDEV_toggles_developer_mode:
  assumes "valid_state (state p)"
    and "status (state p) = Active"
    and "\<not> currentCol (state p) < WORD_LENGTH"
    and "concat (guesses (state p) ! currentRow (state p)) = ''ASDEV''"
  shows "\<exists>p'. handleKeyInput isValidGuess ''enter'' p = (Normal, p') \<and>
     developerMode (state p') = (\<not> developerMode (state p)) \<and>
     guesses (state p') = (guesses (state p))[currentRow (state p) := replicate WORD_LENGTH []] \<and>
     evaluations (state p') =
       (evaluations (state p))[currentRow (state p) := Some (replicate WORD_LENGTH Empty)] \<and>
     currentCol (state p') = 0 \<and>
     currentRow (state p') = currentRow (state p) \<and>
     status (state p') = status (state p) \<and>
     keyStates (state p') = keyStates (state p) \<and>
     answer (state p') = answer (state p) \<and>
     statusEl p' = (if developerMode (state p) then DeveloperModeDisabled else WelcomeDeveloper)"
proof -
  have rg: "currentRow (state p) < length (guesses (state p))"
    and re: "currentRow (state p) < length (evaluations (state p))"
    using valid_stateD(1,2,7)[OF assms(1)] assms(2) by simp_all
  have n: "fst (toggleDeveloperMode p) = Normal"
    using valid_state_toggleDeveloperMode[OF assms(1,2)] by simp
  have "handleKeyInput isValidGuess ''enter'' p = toggleDeveloperMode p"
    using assms(2,3,4) rg by (simp add: handleKeyInput_enter submitGuess_ASDEV)
  then have "handleKeyInput isValidGuess ''enter'' p = (Normal, snd (toggleDeveloperMode p))"
    using n by (simp add: prod_eq_iff)
  then show ?thesis
    using rg re by (simp add: toggleDeveloperMode_fields array_set_in_range)
qed

theorem ASDEV_toggles_developer_mode_witness:
  "valid_state (state asdev_page) \<and>
   status (state asdev_page) = Active \<and>
   \<not> currentCol (state asdev_page) < WORD_LENGTH \<and>
   concat (guesses (state asdev_page) ! currentRow (state asdev_page)) = ''ASDEV'' \<and>
   (\<exists>p'. handleKeyInput example_dictionary ''enter'' asdev_page = (Normal, p') \<and>
      developerMode (state p') \<and> currentCol (state p') = 0 \<and>
      currentRow (state p') = currentRow (state asdev_page))"
proof -
  have h1: "valid_state (state asdev_page)"
    unfolding asdev_page_def fresh_page_def
    by (rule valid_state_handleKeys) (simp add: valid_state_createNewState)
  have h2: "status (state asdev_page) = Active" by code_simp
  have h3: "\<not> currentCol (state asdev_page) < WORD_LENGTH" by code_simp
  have h4: "concat (guesses (state asdev_page) ! currentRow (state asdev_page)) = ''ASDEV''"
    by code_simp
  have h5: "\<not> developerMode (state asdev_page)" by code_simp
  from ASDEV_toggles_developer_mode[OF h1 h2 h3 h4, of example_dictionary] h1 h2 h3 h4 h5
  show ?thesis by auto
qed

lemma letter_input_rows:
  "currentRow (state (snd (letter_input key p))) = currentRow (state p)"
  "evaluations (state (snd (letter_input key p))) = evaluations (state p)"
  "r \<noteq> currentRow (state p) \<Longrightarrow>
     guesses (state (snd (letter_input key p))) ! r = guesses (state p) ! r"
  by (simp_all add: letter_input_def Let_def)

lemma backspace_input_rows:
  "currentRow (state (snd (backspace_input p))) = currentRow (state p)"
  "evaluations (state (snd (backspace_input p))) = evaluations (state p)"
  "r \<noteq> currentRow (state p) \<Longrightarrow>
     guesses (state (snd (backspace_input p))) ! r = guesses (state p) ! r"
  by (simp_all add: backspace_input_def Let_def)

lemma submitGuess_rows:
  assumes v: "valid_state (state p)" and act: "status (state p) = Active"
    and r: "r < currentRow (state p)"
  shows "currentRow (state p) \<le> currentRow (state (snd (submitGuess V p)))"
    and "guesses (state (snd (submitGuess V p))) ! r = guesses (state p) ! r"
    and "evaluations (state (snd (submitGuess V p))) ! r = evaluations (state p) ! r"
proof -
  note d = valid_stateD[OF v]
  have rg: "currentRow (state p) < length (guesses (state p))"
    and re: "currentRow (state p) < length (evaluations (state p))"
    using d(1,2) d(7)[OF act] by simp_all
  have ne: "currentRow (state p) \<noteq> r" using r by simp
  show "currentRow (state p) \<le> currentRow (state (snd (submitGuess V p)))"
    by (simp add: submitGuess_def Let_def toggleDeveloperMode_fields score_and_advance_fields)
  show "guesses (state (snd (submitGuess V p))) ! r = guesses (state p) ! r"
    using rg ne
    by (simp add: submitGuess_def Let_def toggleDeveloperMode_fields score_and_advance_fields
        array_set_in_range)
  show "evaluations (state (snd (submitGuess V p))) ! r = evaluations (state p) ! r"
    using re ne
    by (simp add: submitGuess_def Let_def toggleDeveloperMode_fields score_and_advance_fields
        array_set_in_range)
qed

lemma submitGuess_part_000_rows:
  assumes v: "valid_state (state p)" and act: "status (state p) = Active"
    and r: "r < currentRow (state p)"
  shows "currentRow (state p) \<le> currentRow (state (snd (submitGuess_part_000 V p)))"
    and "guesses (state (snd (submitGuess_part_000 V p))) ! r = guesses (state p) ! r"
    and "evaluations (state (snd (submitGuess_part_000 V p))) ! r = evaluations (state p) ! r"
proof -
  note d = valid_stateD[OF v]
  have re: "currentRow (state p) < length (evaluations (state p))"
    using d(2) d(7)[OF act] by simp
  have ne: "currentRow (state p) \<noteq> r" using r by simp
  show "currentRow (state p) \<le> currentRow (state (snd (submitGuess_part_000 V p)))"
    by (simp add: submitGuess_part_000_def Let_def score_and_advance_fields)
  show "guesses (state (snd (submitGuess_part_000 V p))) ! r = guesses (state p) ! r"
    by (simp add: submitGuess_part_000_def Let_def score_and_advance_fields)
  show "evaluations (state (snd (submitGuess_part_000 V p))) ! r = evaluations (state p) ! r"
    using re ne
    by (simp add: submitGuess_part_000_def Let_def score_and_advance_fields array_set_in_range)
qed

lemma handleKeyInput_rows:
  assumes v: "valid_state (state p)" and r: "r < currentRow (state p)"
  shows "currentRow (state p) \<le> currentRow (state (snd (handleKeyInput V key p))) \<and>
         guesses (state (snd (handleKeyInput V key p))) ! r = guesses (state p) ! r \<and>
         evaluations (state (snd (handleKeyInput V key p))) ! r = evaluations (state p) ! r"
proof (cases "status (state p) = Active")
  case True
  have ne: "r \<noteq> currentRow (state p)" using r by simp
  show ?thesis
    using True submitGuess_rows[OF v True r, of V] letter_input_rows(1,2)[of key p]
      letter_input_rows(3)[OF ne, of key] backspace_input_rows(1,2)[of p] backspace_input_rows(3)[OF ne]
    by (simp add: handleKeyInput_def)
next
  case False
  then show ?thesis by (simp add: handleKeyInput_def)
qed

lemma handleKeyInput_part_000_rows:
  assumes v: "valid_state (state p)" and r: "r < currentRow (state p)"
  shows "currentRow (state p) \<le> currentRow (state (snd (handleKeyInput_part_000 V key p))) \<and>
         guesses (state (snd (handleKeyInput_part_000 V key p))) ! r = guesses (state p) ! r \<and>
         evaluations (state (snd (handleKeyInput_part_000 V key p))) ! r = evaluations (state p) ! r"
proof (cases "status (state p) = Active")
  case True
  have ne: "r \<noteq> currentRow (state p)" using r by simp
  show ?thesis
    using True submitGuess_part_000_rows[OF v True r, of V] letter_input_rows(1,2)[of key p]
      letter_input_rows(3)[OF ne, of key] backspace_input_rows(1,2)[of p] backspace_input_rows(3)[OF ne]
    by (simp add: handleKeyInput_part_000_def)
next
  case False
  then show ?thesis by (simp add: handleKeyInput_part_000_def)
qed

lemma handleKeys_rows:
  "valid_state (state p) \<Longrightarrow> r < currentRow (state p) \<Longrightarrow>
   currentRow (state p) \<le> currentRow (state (handleKeys V keys p)) \<and>
   guesses (state (handleKeys V keys p)) ! r = guesses (state p) ! r \<and>
   evaluations (state (handleKeys V keys p)) ! r = evaluations (state p) ! r"
proof (induction keys arbitrary: p)
  case Nil
  show ?case by (simp add: handleKeys_def)
next
  case (Cons key keys)
  let ?q = "snd (handleKeyInput V key p)"
  have step: "currentRow (state p) \<le> currentRow (state ?q) \<and>
         guesses (state ?q) ! r = guesses (state p) ! r \<and>
         evaluations (state ?q) ! r = evaluations (state p) ! r"
    by (rule handleKeyInput_rows[OF Cons.prems])
  have vq: "valid_state (state ?q)"
    using valid_state_handleKeyInput[OF Cons.prems(1)] by simp
  have rq: "r < currentRow (state ?q)"
    using step Cons.prems(2) by simp
  have unfold: "handleKeys V (key # keys) p = handleKeys V keys ?q"
    by (simp add: handleKeys_def)
  show ?case
    unfolding unfold using Cons.IH[OF vq rq] step by simp
qed

lemma handleKeys_part_000_rows:
  "valid_state (state p) \<Longrightarrow> r < currentRow (state p) \<Longrightarrow>
   currentRow (state p) \<le> currentRow (state (handleKeys_part_000 V keys p)) \<and>
   guesses (state (handleKeys_part_000 V keys p)) ! r = guesses (state p) ! r \<and>
   evaluations (state (handleKeys_part_000 V keys p)) ! r = evaluations (state p) ! r"
proof (induction keys arbitrary: p)
  case Nil
  show ?case by (simp add: handleKeys_part_000_def)
next
  case (Cons key keys)
  let ?q = "snd (handleKeyInput_part_000 V key p)"
  have step: "currentRow (state p) \<le> currentRow (state ?q) \<and>
         guesses (state ?q) ! r = guesses (state p) ! r \<and>
         evaluations (state ?q) ! r = evaluations (state p) ! r"
    by (rule handleKeyInput_part_000_rows[OF Cons.prems])
  have vq: "valid_state (state ?q)"
    using valid_state_handleKeyInput_part_000[OF Cons.prems(1)] by simp
  have rq: "r < currentRow (state ?q)"
    using step Cons.prems(2) by simp
  have unfold: "handleKeys_part_000 V (key # keys) p = handleKeys_part_000 V keys ?q"
    by (simp add: handleKeys_part_000_def)
  show ?case
    unfolding unfold using Cons.IH[OF vq rq] step by simp
qed

lemma score_and_advance_row_advanced:
  assumes v: "valid_state (state p)" and act: "status (state p) = Active"
    and row: "currentRow (state p) < 5"
    and ne: "concat (guesses (state p) ! currentRow (state p)) \<noteq> answer (state p)"
  shows "row_advanced p (snd (score_and_advance (concat (guesses (state p) ! currentRow (state p))) p))"
proof -
  have re: "currentRow (state p) < length (evaluations (state p))"
    using valid_stateD(2,7)[OF v] act by simp
  show ?thesis
    using ne row act re
    by (simp add: row_advanced_def score_and_advance_fields array_set_in_range MAX_ROWS_def)
qed

lemma handleKeys_rows_frozen:
  "valid_state (state p') \<Longrightarrow> rows_frozen p' (handleKeys V keys p')"
  by (simp add: rows_frozen_def handleKeys_rows)

lemma handleKeys_part_000_rows_frozen:
  "valid_state (state p') \<Longrightarrow> rows_frozen p' (handleKeys_part_000 V keys p')"
  by (simp add: rows_frozen_def handleKeys_part_000_rows)

text \<open>
  Claim C6. In every valid active game state with a full current row, after a
  submission whose word is valid, is not the answer and was entered on a row
  other than the last (\<open>currentRow < 5\<close>): the handler returns normally,
  \<open>currentRow\<close> has increased by exactly 1, \<open>currentCol\<close> is 0, the status is
  still active, the evaluation of the submitted row is stored, and the letters
  and evaluations of all rows before the new \<open>currentRow\<close> stay what they are
  under every later sequence of key events. The validity check belongs to the
  word source (\<^verbatim>\<open>dictionary.js\<close>), a parameter here; for \<^verbatim>\<open>src/game.js\<close>,
  whose developer-mode branch comes before the validity check, the word source
  is taken to reject ASDEV, which is not a word. The older variant has no such
  branch.
\<close>

theorem valid_submission_advances_row:
  assumes "valid_state (state p)"
    and "status (state p) = Active"
    and "\<not> currentCol (state p) < WORD_LENGTH"
    and "currentRow (state p) < 5"
    and "isValidGuess (concat (guesses (state p) ! currentRow (state p)))"
    and "concat (guesses (state p) ! currentRow (state p)) \<noteq> answer (state p)"
  shows
    "(\<not> isValidGuess ''ASDEV'' \<longrightarrow>
        fst (handleKeyInput isValidGuess ''enter'' p) = Normal \<and>
        row_advanced p (snd (handleKeyInput isValidGuess ''enter'' p)) \<and>
        (\<forall>keys. rows_frozen (snd (handleKeyInput isValidGuess ''enter'' p))
           (handleKeys isValidGuess keys (snd (handleKeyInput isValidGuess ''enter'' p))))) \<and>
     fst (handleKeyInput_part_000 isValidGuess ''enter'' p) = Normal \<and>
     row_advanced p (snd (handleKeyInput_part_000 isValidGuess ''enter'' p)) \<and>
     (\<forall>keys. rows_frozen (snd (handleKeyInput_part_000 isValidGuess ''enter'' p))
        (handleKeys_part_000 isValidGuess keys (snd (handleKeyInput_part_000 isValidGuess ''enter'' p))))"
proof -
  let ?g = "concat (guesses (state p) ! currentRow (state p))"
  let ?r = "score_and_advance ?g p"
  have rg: "currentRow (state p) < length (guesses (state p))"
    using valid_stateD(1,7)[OF assms(1)] assms(2) by simp
  have adv: "row_advanced p (snd ?r)"
    by (rule score_and_advance_row_advanced[OF assms(1,2,4,6)])
  have n: "fst ?r = Normal" and v': "valid_state (state (snd ?r))"
    using valid_state_score_and_advance[OF assms(1,2), of ?g] by simp_all
  have old: "handleKeyInput_part_000 isValidGuess ''enter'' p = ?r"
    using assms(2,3,5) rg by (simp add: handleKeyInput_part_000_enter submitGuess_part_000_valid)
  have new: "handleKeyInput isValidGuess ''enter'' p = ?r" if "\<not> isValidGuess ''ASDEV''"
  proof -
    have "?g \<noteq> ''ASDEV''" using that assms(5) by auto
    then show ?thesis
      using assms(2,3,5) rg by (simp add: handleKeyInput_enter submitGuess_valid)
  qed
  have frozen: "rows_frozen (snd ?r) (handleKeys isValidGuess keys (snd ?r))" for keys
    by (rule handleKeys_rows_frozen[OF v'])
  have frozen_old: "rows_frozen (snd ?r) (handleKeys_part_000 isValidGuess keys (snd ?r))" for keys
    by (rule handleKeys_part_000_rows_frozen[OF v'])
  show ?thesis
    unfolding old using adv n frozen frozen_old new by simp
qed

theorem valid_submission_advances_row_witness:
  "valid_state (state trace_page) \<and>
   status (state trace_page) = Active \<and>
   \<not> currentCol (state trace_page) < WORD_LENGTH \<and>
   currentRow (state trace_page) < 5 \<and>
   example_dictionary (concat (guesses (state trace_page) ! currentRow (state trace_page))) \<and>
   concat (guesses (state trace_page) ! currentRow (state trace_page)) \<noteq> answer (state trace_page) \<and>
   \<not> example_dictionary ''ASDEV'' \<and>
   fst (handleKeyInput example_dictionary ''enter'' trace_page) = Normal \<and>
   row_advanced trace_page (snd (handleKeyInput example_dictionary ''enter'' trace_page)) \<and>
   rows_frozen (snd (handleKeyInput example_dictionary ''enter'' trace_page))
     (handleKeys example_dictionary [''s'', ''p'', ''e'', ''e'', ''d'', ''enter'']
        (snd (handleKeyInput example_dictionary ''enter'' trace_page)))"
proof -
  have v: "valid_state (state trace_page)"
    unfolding trace_page_def fresh_page_def
    by (rule valid_state_handleKeys) (simp add: valid_state_createNewState)
  have h2: "status (state trace_page) = Active" by code_simp
  have h3: "\<not> currentCol (state trace_page) < WORD_LENGTH" by code_simp
  have h4: "currentRow (state trace_page) < 5" by code_simp
  have h5: "example_dictionary (concat (guesses (state trace_page) ! currentRow (state trace_page)))"
    by code_simp
  have h6: "concat (guesses (state trace_page) ! currentRow (state trace_page)) \<noteq> answer (state trace_page)"
    by code_simp
  have h7: "\<not> example_dictionary ''ASDEV''"
    by code_simp
  from valid_submission_advances_row[of trace_page example_dictionary, OF v h2 h3 h4 h5 h6]
    v h2 h3 h4 h5 h6 h7
  show ?thesis by blast
qed

section \<open>Verification of the persistence rules\<close>

lemma digit_char_inj: "digit_char n = digit_char m \<Longrightarrow> n mod 10 = m mod 10"
proof -
  assume a: "digit_char n = digit_char m"
  have d: "distinct ''0123456789''" by simp
  have "n mod 10 < length ''0123456789''" "m mod 10 < length ''0123456789''" by simp_all
  with a d show ?thesis
    unfolding digit_char_def by (simp only: nth_eq_iff_index_eq)
qed

lemma digit_char_in: "digit_char n \<in> set ''0123456789''"
  unfolding digit_char_def by (rule nth_mem) simp

lemma String_nat_not_Nil: "String_nat n \<noteq> []"
  by (subst String_nat.simps) simp

lemma set_String_nat: "set (String_nat n) \<subseteq> set ''0123456789''"
proof (induction n rule: String_nat.induct)
  case (1 n)
  show ?case
  proof (cases "n < 10")
    case True
    then show ?thesis
      using digit_char_in[of n] by (subst String_nat.simps) simp
  next
    case False
    then show ?thesis
      using 1 digit_char_in[of n] by (subst String_nat.simps) simp
  qed
qed

lemma String_nat_inj: "String_nat n = String_nat m \<Longrightarrow> n = m"
proof (induction n arbitrary: m rule: String_nat.induct)
  case (1 n)
  show ?case
  proof (cases "n < 10")
    case n: True
    show ?thesis
    proof (cases "m < 10")
      case True
      with n 1(2) have "digit_char n = digit_char m"
        by (simp add: String_nat.simps[of n] String_nat.simps[of m])
      from digit_char_inj[OF this] n True show ?thesis by simp
    next
      case False
      with n 1(2) have "String_nat (m div 10) = []"
        by (simp add: String_nat.simps[of n] String_nat.simps[of m])
      then show ?thesis using String_nat_not_Nil by simp
    qed
  next
    case n: False
    show ?thesis
    proof (cases "m < 10")
      case True
      with n 1(2) have "String_nat (n div 10) = []"
        by (simp add: String_nat.simps[of n] String_nat.simps[of m])
      then show ?thesis using String_nat_not_Nil by simp
    next
      case False
      with n 1(2) have e: "String_nat (n div 10) = String_nat (m div 10)"
        and d: "digit_char n = digit_char m"
        by (simp_all add: String_nat.simps[of n] String_nat.simps[of m])
      have "n div 10 = m div 10" using 1(1)[OF n e] .
      moreover have "n mod 10 = m mod 10" using digit_char_inj[OF d] .
      ultimately show ?thesis by (metis div_mult_mod_eq)
    qed
  qed
qed

lemma String_int_inj: "String_int i = String_int j \<Longrightarrow> i = j"
proof -
  assume a: "String_int i = String_int j"
  have nm: "\<And>n k. String_nat n \<noteq> CHR ''-'' # k"
  proof
    fix n k assume "String_nat n = CHR ''-'' # k"
    then have "CHR ''-'' \<in> set (String_nat n)" by simp
    then show False using set_String_nat[of n] by auto
  qed
  show ?thesis
  proof (cases "i < 0")
    case i: True
    show ?thesis
    proof (cases "j < 0")
      case True
      with i a have "String_nat (nat (- i)) = String_nat (nat (- j))"
        by (simp add: String_int_def)
      from String_nat_inj[OF this] i True show ?thesis by simp
    next
      case False
      with i a nm show ?thesis by (simp add: String_int_def) metis
    qed
  next
    case i: False
    show ?thesis
    proof (cases "j < 0")
      case True
      with i a nm show ?thesis by (simp add: String_int_def)
    next
      case False
      with i a have "String_nat (nat i) = String_nat (nat j)"
        by (simp add: String_int_def)
      from String_nat_inj[OF this] i False show ?thesis by simp
    qed
  qed
qed

lemma length_String_nat_100: "n < 100 \<Longrightarrow> length (String_nat n) \<le> 2"
proof -
  assume "n < 100"
  then have "n div 10 < 10" by simp
  then show ?thesis
    by (simp add: String_nat.simps[of n] String_nat.simps[of "n div 10"])
qed

lemma length_padStart: "length s \<le> n \<Longrightarrow> length (padStart n c s) = n"
  by (simp add: padStart_def)

lemma String_nat_0: "String_nat 0 = ''0''"
  by (simp add: digit_char_def)

lemma padStart_String_nat_inj:
  assumes "n < 100" "m < 100"
    and eq: "padStart 2 CHR ''0'' (String_nat n) = padStart 2 CHR ''0'' (String_nat m)"
  shows "n = m"
proof -
  have pad: "\<And>k. k < 100 \<Longrightarrow> padStart 2 CHR ''0'' (String_nat k)
      = [digit_char (k div 10), digit_char k]"
  proof -
    fix k :: nat assume "k < 100"
    show "padStart 2 CHR ''0'' (String_nat k) = [digit_char (k div 10), digit_char k]"
    proof (cases "k < 10")
      case True
      then show ?thesis
        by (simp add: String_nat.simps[of k] padStart_def digit_char_def)
    next
      case False
      with \<open>k < 100\<close> show ?thesis
        by (simp add: String_nat.simps[of k] String_nat.simps[of "k div 10"] padStart_def)
    qed
  qed
  from eq pad[OF assms(1)] pad[OF assms(2)]
  have "digit_char (n div 10) = digit_char (m div 10)" and "digit_char n = digit_char m"
    by simp_all
  then have a: "(n div 10) mod 10 = (m div 10) mod 10" and b: "n mod 10 = m mod 10"
    by (auto dest: digit_char_inj)
  have "n div 10 < 10" "m div 10 < 10" using assms(1,2) by simp_all
  with a have "n div 10 = m div 10" by simp
  with b show ?thesis by (metis div_mult_mod_eq)
qed

lemma getLocalDayKey_inj:
  assumes v1: "valid_date d1" and v2: "valid_date d2"
    and eq: "getLocalDayKey d1 = getLocalDayKey d2"
  shows "getFullYear d1 = getFullYear d2 \<and> getMonth d1 = getMonth d2 \<and> getDate d1 = getDate d2"
proof -
  define Y1 where "Y1 = String_int (getFullYear d1)"
  define Y2 where "Y2 = String_int (getFullYear d2)"
  define M1 where "M1 = padStart 2 CHR ''0'' (String_nat (getMonth d1 + 1))"
  define M2 where "M2 = padStart 2 CHR ''0'' (String_nat (getMonth d2 + 1))"
  define D1 where "D1 = padStart 2 CHR ''0'' (String_nat (getDate d1))"
  define D2 where "D2 = padStart 2 CHR ''0'' (String_nat (getDate d2))"
  have b1: "getMonth d1 + 1 < 100" "getDate d1 < 100" using v1 by (simp_all add: valid_date_def)
  have b2: "getMonth d2 + 1 < 100" "getDate d2 < 100" using v2 by (simp_all add: valid_date_def)
  have lm: "length M1 = 2" "length M2 = 2" "length D1 = 2" "length D2 = 2"
    unfolding M1_def M2_def D1_def D2_def
    using b1 b2 by (simp_all add: length_padStart length_String_nat_100)
  have k1: "getLocalDayKey d1 = Y1 @ (CHR ''-'' # M1 @ CHR ''-'' # D1)"
    by (simp add: getLocalDayKey_def Let_def Y1_def M1_def D1_def)
  have k2: "getLocalDayKey d2 = Y2 @ (CHR ''-'' # M2 @ CHR ''-'' # D2)"
    by (simp add: getLocalDayKey_def Let_def Y2_def M2_def D2_def)
  have e: "Y1 @ (CHR ''-'' # M1 @ CHR ''-'' # D1) = Y2 @ (CHR ''-'' # M2 @ CHR ''-'' # D2)"
    using eq unfolding k1 k2 .
  have "length (CHR ''-'' # M1 @ CHR ''-'' # D1) = length (CHR ''-'' # M2 @ CHR ''-'' # D2)"
    using lm by simp
  then have "(Y1 @ (CHR ''-'' # M1 @ CHR ''-'' # D1) = Y2 @ (CHR ''-'' # M2 @ CHR ''-'' # D2))
      = (Y1 = Y2 \<and> CHR ''-'' # M1 @ CHR ''-'' # D1 = CHR ''-'' # M2 @ CHR ''-'' # D2)"
    by (intro append_eq_append_conv) simp
  with e have y: "Y1 = Y2" and rest: "M1 @ CHR ''-'' # D1 = M2 @ CHR ''-'' # D2"
    by simp_all
  have "(M1 @ CHR ''-'' # D1 = M2 @ CHR ''-'' # D2) = (M1 = M2 \<and> CHR ''-'' # D1 = CHR ''-'' # D2)"
    by (intro append_eq_append_conv) (simp add: lm)
  with rest have m: "M1 = M2" and d: "D1 = D2"
    by simp_all
  have "getMonth d1 + 1 = getMonth d2 + 1"
    using m unfolding M1_def M2_def by (rule padStart_String_nat_inj[OF b1(1) b2(1)])
  moreover have "getDate d1 = getDate d2"
    using d unfolding D1_def D2_def by (rule padStart_String_nat_inj[OF b1(2) b2(2)])
  moreover have "getFullYear d1 = getFullYear d2"
    using y unfolding Y1_def Y2_def by (rule String_int_inj)
  ultimately show ?thesis by simp
qed

lemma not_truthy_iff:
  "\<not> truthy v \<longleftrightarrow>
     v \<in> {None, Some (JStr []), Some JNull, Some (JBool False), Some (JNum 0)}"
  by (cases v rule: truthy.cases) auto

lemma load_with_None_iff:
  "load_with w JSON_parse today (Some r) = None \<longleftrightarrow>
     r = [] \<or> JSON_parse r = None \<or>
     (\<exists>parsed. JSON_parse r = Some parsed \<and>
        (property parsed ''dayKey'' \<noteq> Some (JStr (getLocalDayKey today)) \<or>
         property parsed ''answer''
           \<in> {None, Some (JStr []), Some JNull, Some (JBool False), Some (JNum 0)}))"
proof (cases "r = []")
  case True
  then show ?thesis by (simp add: load_with_def)
next
  case r: False
  show ?thesis
  proof (cases "JSON_parse r")
    case None
    then show ?thesis using r by (simp add: load_with_def)
  next
    case (Some parsed)
    have "parsed = JNull \<Longrightarrow> property parsed ''dayKey'' \<noteq> Some (JStr (getLocalDayKey today))"
      by simp
    then have "load_with w JSON_parse today (Some r) = None \<longleftrightarrow>
        property parsed ''dayKey'' \<noteq> Some (JStr (getLocalDayKey today)) \<or>
        \<not> truthy (property parsed ''answer'')"
      using r Some by (auto simp: load_with_def Let_def)
    then show ?thesis
      unfolding not_truthy_iff using r Some by simp
  qed
qed

lemma property_payload_dayKey:
  "property (payload d s) ''dayKey'' = Some (JStr (getLocalDayKey d))"
  "property (payload_part_000 d s) ''dayKey'' = Some (JStr (getLocalDayKey d))"
  by (simp_all add: payload_def payload_part_000_def payload_fields_def)

lemma local_date_eqI:
  fixes d1 d2 :: local_date
  shows "getFullYear d1 = getFullYear d2 \<Longrightarrow> getMonth d1 = getMonth d2 \<Longrightarrow>
         getDate d1 = getDate d2 \<Longrightarrow> d1 = d2"
  by simp

lemma load_with_prior_day:
  assumes "valid_date d1" and "valid_date today" and "d1 \<noteq> today"
    and "JSON_parse r = Some parsed"
    and "property parsed ''dayKey'' = Some (JStr (getLocalDayKey d1))"
  shows "load_with w JSON_parse today (Some r) = None"
proof -
  have "getLocalDayKey d1 \<noteq> getLocalDayKey today"
  proof
    assume "getLocalDayKey d1 = getLocalDayKey today"
    from getLocalDayKey_inj[OF assms(1,2) this] have "d1 = today"
      by (intro local_date_eqI) simp_all
    with assms(3) show False by simp
  qed
  then have "property parsed ''dayKey'' \<noteq> Some (JStr (getLocalDayKey today))"
    by (simp add: assms(5))
  with assms(4) show ?thesis
    unfolding load_with_None_iff by blast
qed

text \<open>
  Claim C8 says that a payload is discarded exactly when its \<open>dayKey\<close> differs
  from today's key, its \<open>answer\<close> is missing or empty, or it fails to parse. The
  guard of both variants is \<^verbatim>\<open>!parsed.answer\<close>: a stored text that parses,
  carries today's \<open>dayKey\<close> and has the answer 0, which is neither missing nor
  empty, is discarded.
\<close>

theorem zero_answer_payload_is_discarded:
  "zero_answer_text \<noteq> [] \<and>
   zero_answer_parse zero_answer_text = Some zero_answer_payload \<and>
   property zero_answer_payload ''dayKey'' = Some (JStr (getLocalDayKey day2)) \<and>
   property zero_answer_payload ''answer'' = Some (JNum 0) \<and>
   property zero_answer_payload ''answer'' \<noteq> None \<and>
   property zero_answer_payload ''answer'' \<noteq> Some (JStr []) \<and>
   loadPersistedState zero_answer_parse day2 (Some zero_answer_text) = None \<and>
   loadPersistedState_part_000 zero_answer_parse day2 (Some zero_answer_text) = None"
  by code_simp

text \<open>
  Claim C8, amended. For every stored text, \<open>loadPersistedState\<close> returns
  \<^verbatim>\<open>null\<close> (\<open>None\<close>) exactly when the text is empty or fails to parse, or the
  \<open>dayKey\<close> of the parsed payload is not the string \<open>getLocalDayKey\<close> gives for
  today, or its \<open>answer\<close> is missing or falsy: the empty string, \<^verbatim>\<open>null\<close>,
  \<^verbatim>\<open>false\<close> or 0. In both variants. When it returns \<^verbatim>\<open>null\<close>, \<open>init\<close> keeps
  the fresh game. In particular a payload that the \<open>persistState\<close> of a variant
  wrote on another calendar day is never restored by that variant, because the
  day keys of two different valid dates differ.
\<close>

theorem stale_or_broken_payload_is_discarded:
  "(loadPersistedState JSON_parse today (Some r) = None \<longleftrightarrow>
      r = [] \<or> JSON_parse r = None \<or>
      (\<exists>parsed. JSON_parse r = Some parsed \<and>
         (property parsed ''dayKey'' \<noteq> Some (JStr (getLocalDayKey today)) \<or>
          property parsed ''answer''
            \<in> {None, Some (JStr []), Some JNull, Some (JBool False), Some (JNum 0)}))) \<and>
   (loadPersistedState_part_000 JSON_parse today (Some r) = None \<longleftrightarrow>
      r = [] \<or> JSON_parse r = None \<or>
      (\<exists>parsed. JSON_parse r = Some parsed \<and>
         (property parsed ''dayKey'' \<noteq> Some (JStr (getLocalDayKey today)) \<or>
          property parsed ''answer''
            \<in> {None, Some (JStr []), Some JNull, Some (JBool False), Some (JNum 0)}))) \<and>
   (loadPersistedState JSON_parse today raw = None \<longrightarrow>
      init JSON_parse today raw todaysAnswer
        = (FreshGame (createNewState todaysAnswer), GuessIn6Tries)) \<and>
   (loadPersistedState_part_000 JSON_parse today raw = None \<longrightarrow>
      init_part_000 JSON_parse today raw todaysAnswer
        = (FreshGame (createNewState todaysAnswer), GuessIn6Tries)) \<and>
   (valid_date d1 \<and> valid_date today \<and> d1 \<noteq> today \<and>
    JSON_parse (persistState JSON_stringify d1 s) = Some (payload d1 s) \<longrightarrow>
      loadPersistedState JSON_parse today (Some (persistState JSON_stringify d1 s)) = None) \<and>
   (valid_date d1 \<and> valid_date today \<and> d1 \<noteq> today \<and>
    JSON_parse (persistState_part_000 JSON_stringify d1 s) = Some (payload_part_000 d1 s) \<longrightarrow>
      loadPersistedState_part_000 JSON_parse today
        (Some (persistState_part_000 JSON_stringify d1 s)) = None)"
proof (intro conjI impI)
  show "(loadPersistedState JSON_parse today (Some r) = None) =
      (r = [] \<or> JSON_parse r = None \<or>
      (\<exists>parsed. JSON_parse r = Some parsed \<and>
         (property parsed ''dayKey'' \<noteq> Some (JStr (getLocalDayKey today)) \<or>
          property parsed ''answer''
            \<in> {None, Some (JStr []), Some JNull, Some (JBool False), Some (JNum 0)})))"
    unfolding loadPersistedState_def by (rule load_with_None_iff)
  show "(loadPersistedState_part_000 JSON_parse today (Some r) = None) =
      (r = [] \<or> JSON_parse r = None \<or>
      (\<exists>parsed. JSON_parse r = Some parsed \<and>
         (property parsed ''dayKey'' \<noteq> Some (JStr (getLocalDayKey today)) \<or>
          property parsed ''answer''
            \<in> {None, Some (JStr []), Some JNull, Some (JBool False), Some (JNum 0)})))"
    unfolding loadPersistedState_part_000_def by (rule load_with_None_iff)
  show "init JSON_parse today raw todaysAnswer = (FreshGame (createNewState todaysAnswer), GuessIn6Tries)"
    if "loadPersistedState JSON_parse today raw = None"
    using that by (simp add: init_def)
  show "init_part_000 JSON_parse today raw todaysAnswer
      = (FreshGame (createNewState todaysAnswer), GuessIn6Tries)"
    if "loadPersistedState_part_000 JSON_parse today raw = None"
    using that by (simp add: init_part_000_def)
next
  assume a: "valid_date d1 \<and> valid_date today \<and> d1 \<noteq> today \<and>
    JSON_parse (persistState JSON_stringify d1 s) = Some (payload d1 s)"
  then show "loadPersistedState JSON_parse today (Some (persistState JSON_stringify d1 s)) = None"
    unfolding loadPersistedState_def
    by (intro load_with_prior_day[of d1 today _ _ "payload d1 s"])
      (simp_all add: property_payload_dayKey)
next
  assume a: "valid_date d1 \<and> valid_date today \<and> d1 \<noteq> today \<and>
    JSON_parse (persistState_part_000 JSON_stringify d1 s) = Some (payload_part_000 d1 s)"
  then show "loadPersistedState_part_000 JSON_parse today
      (Some (persistState_part_000 JSON_stringify d1 s)) = None"
    unfolding loadPersistedState_part_000_def
    by (intro load_with_prior_day[of d1 today _ _ "payload_part_000 d1 s"])
      (simp_all add: property_payload_dayKey)
qed

theorem stale_or_broken_payload_is_discarded_witness:
  "valid_date day1 \<and> valid_date day2 \<and> day1 \<noteq> day2 \<and>
   example_parse (persistState example_stringify day1 (state trace_page))
     = Some (payload day1 (state trace_page)) \<and>
   example_parse_part_000 (persistState_part_000 example_stringify day1 (state trace_page))
     = Some (payload_part_000 day1 (state trace_page)) \<and>
   loadPersistedState example_parse day2
     (Some (persistState example_stringify day1 (state trace_page))) = None \<and>
   loadPersistedState_part_000 example_parse_part_000 day2
     (Some (persistState_part_000 example_stringify day1 (state trace_page))) = None \<and>
   init example_parse day2 (Some (persistState example_stringify day1 (state trace_page))) ''ABIDE''
     = (FreshGame (createNewState ''ABIDE''), GuessIn6Tries) \<and>
   init_part_000 example_parse_part_000 day2
       (Some (persistState_part_000 example_stringify day1 (state trace_page))) ''ABIDE''
     = (FreshGame (createNewState ''ABIDE''), GuessIn6Tries) \<and>
   loadPersistedState example_parse day1
     (Some (persistState example_stringify day1 (state trace_page))) \<noteq> None \<and>
   loadPersistedState_part_000 example_parse_part_000 day1
     (Some (persistState_part_000 example_stringify day1 (state trace_page))) \<noteq> None"
proof -
  let ?r = "persistState example_stringify day1 (state trace_page)"
  let ?q = "persistState_part_000 example_stringify day1 (state trace_page)"
  have r: "?r = ''saved''"
    by (simp add: persistState_def example_stringify_def)
  have r0: "?q = ''saved''"
    by (simp add: persistState_part_000_def example_stringify_def)
  have v1: "valid_date day1" and v2: "valid_date day2"
    by (simp_all add: valid_date_def day1_def day2_def)
  have ne: "day1 \<noteq> day2" by (simp add: day1_def day2_def)
  have p: "example_parse ?r = Some (payload day1 (state trace_page))"
    unfolding r by (simp add: example_parse_def)
  have p0: "example_parse_part_000 ?q = Some (payload_part_000 day1 (state trace_page))"
    unfolding r0 by (simp add: example_parse_part_000_def)
  have "loadPersistedState example_parse day1 (Some ''saved'') \<noteq> None"
    by code_simp
  then have same: "loadPersistedState example_parse day1 (Some ?r) \<noteq> None"
    unfolding r .
  have "loadPersistedState_part_000 example_parse_part_000 day1 (Some ''saved'') \<noteq> None"
    by code_simp
  then have same0: "loadPersistedState_part_000 example_parse_part_000 day1 (Some ?q) \<noteq> None"
    unfolding r0 .
  note T = stale_or_broken_payload_is_discarded[of example_parse day2 ?r "Some ?r"
      "''ABIDE''" day1 example_stringify "state trace_page"]
  note T0 = stale_or_broken_payload_is_discarded[of example_parse_part_000 day2 ?q "Some ?q"
      "''ABIDE''" day1 example_stringify "state trace_page"]
  have stale: "loadPersistedState example_parse day2 (Some ?r) = None"
    using T[THEN conjunct2, THEN conjunct2, THEN conjunct2, THEN conjunct2, THEN conjunct1]
      v1 v2 ne p by blast
  have stale0: "loadPersistedState_part_000 example_parse_part_000 day2 (Some ?q) = None"
    using T0[THEN conjunct2, THEN conjunct2, THEN conjunct2, THEN conjunct2, THEN conjunct2]
      v1 v2 ne p0 by blast
  have fresh: "init example_parse day2 (Some ?r) ''ABIDE''
     = (FreshGame (createNewState ''ABIDE''), GuessIn6Tries)"
    using T[THEN conjunct2, THEN conjunct2, THEN conjunct1] stale by blast
  have fresh0: "init_part_000 example_parse_part_000 day2 (Some ?q) ''ABIDE''
     = (FreshGame (createNewState ''ABIDE''), GuessIn6Tries)"
    using T0[THEN conjunct2, THEN conjunct2, THEN conjunct2, THEN conjunct1] stale0 by blast
  show ?thesis
    using v1 v2 ne p p0 stale stale0 fresh fresh0 same same0 by blast
qed

section \<open>States reachable from a new game\<close>

text \<open>
  Every state reached from \<open>createNewState\<close> by key events is valid and has its
  current row filled with upper-case letters up to the cursor, so a full row that
  is submitted joins to a word of five upper-case letters, to which the results
  on \<open>scoreGuess\<close> apply.
\<close>

lemma toUpperCase_letter: "isLetterKey key \<Longrightarrow> upper_case_letter (toUpperCase key)"
proof -
  assume a: "isLetterKey key"
  then obtain c where k: "key = [c]"
    and c: "c \<in> set ''abcdefghijklmnopqrstuvwxyzABCDEFGHIJKLMNOPQRSTUVWXYZ''"
    by (auto simp: isLetterKey_def split: list.splits)
  from c have "toUpperCase_char c \<in> set ''ABCDEFGHIJKLMNOPQRSTUVWXYZ''"
    unfolding toUpperCase_char_def by (elim disjE insertE emptyE | simp)+
  then show ?thesis by (simp add: k toUpperCase_def upper_case_letter_def)
qed

lemma letters_filled_createNewState: "letters_filled (createNewState a)"
  by (simp add: letters_filled_def createNewState_def)

lemma letters_filled_letter_input:
  assumes v: "valid_state (state p)" and act: "status (state p) = Active"
    and l: "letters_filled (state p)" and k: "isLetterKey key"
  shows "letters_filled (state (snd (letter_input key p)))"
proof (cases "currentCol (state p) < WORD_LENGTH")
  case True
  note d = valid_stateD[OF v]
  have r: "currentRow (state p) < length (guesses (state p))"
    using d(1) d(7)[OF act] by simp
  note f = letter_input_fields[OF True r, of key]
  have lr: "length (guesses (state p) ! currentRow (state p)) = WORD_LENGTH"
    using list_all_nth[OF d(3) r] .
  have row: "guesses (state (snd (letter_input key p))) ! currentRow (state (snd (letter_input key p)))
      = (guesses (state p) ! currentRow (state p))[currentCol (state p) := toUpperCase key]"
    using r True lr by (simp add: f array_set_in_range)
  show ?thesis
    unfolding letters_filled_def row f(6,7)
  proof (intro impI allI)
    fix c assume c: "c < currentCol (state p) + 1"
    show "upper_case_letter
        ((guesses (state p) ! currentRow (state p))[currentCol (state p) := toUpperCase key] ! c)"
    proof (cases "c = currentCol (state p)")
      case True
      then show ?thesis
        using \<open>currentCol (state p) < WORD_LENGTH\<close> lr toUpperCase_letter[OF k] by simp
    next
      case False
      with c have "c < currentCol (state p)" by simp
      then show ?thesis
        using l act False by (simp add: letters_filled_def)
    qed
  qed
next
  case False
  then show ?thesis using l by (simp add: letter_input_def)
qed

lemma letters_filled_backspace_input:
  assumes v: "valid_state (state p)" and act: "status (state p) = Active"
    and l: "letters_filled (state p)"
  shows "letters_filled (state (snd (backspace_input p)))"
proof (cases "0 < currentCol (state p)")
  case True
  note d = valid_stateD[OF v]
  have r: "currentRow (state p) < length (guesses (state p))"
    using d(1) d(7)[OF act] by simp
  note f = backspace_input_fields[OF True r]
  have lr: "length (guesses (state p) ! currentRow (state p)) = WORD_LENGTH"
    using list_all_nth[OF d(3) r] .
  have cl: "currentCol (state p) - 1 < WORD_LENGTH"
    using d(6) True by simp
  have row: "guesses (state (snd (backspace_input p))) ! currentRow (state (snd (backspace_input p)))
      = (guesses (state p) ! currentRow (state p))[currentCol (state p) - 1 := []]"
    using r cl lr by (simp add: f array_set_in_range)
  show ?thesis
    unfolding letters_filled_def row f(6,7)
  proof (intro impI allI)
    fix c assume c: "c < currentCol (state p) - 1"
    then have "c < currentCol (state p)" by simp
    then have "upper_case_letter (guesses (state p) ! currentRow (state p) ! c)"
      using l act by (simp add: letters_filled_def)
    then show "upper_case_letter
        ((guesses (state p) ! currentRow (state p))[currentCol (state p) - 1 := []] ! c)"
      using c by simp
  qed
next
  case False
  then show ?thesis using l by (simp add: backspace_input_def)
qed

lemma letters_filled_submitGuess:
  assumes "letters_filled (state p)"
  shows "letters_filled (state (snd (submitGuess V p)))"
  using assms
  by (simp add: submitGuess_def Let_def letters_filled_def toggleDeveloperMode_fields
      score_and_advance_fields)

lemma letters_filled_submitGuess_part_000:
  assumes "letters_filled (state p)"
  shows "letters_filled (state (snd (submitGuess_part_000 V p)))"
  using assms
  by (simp add: submitGuess_part_000_def Let_def letters_filled_def score_and_advance_fields)

lemma letters_filled_handleKeyInput:
  assumes v: "valid_state (state p)" and l: "letters_filled (state p)"
  shows "letters_filled (state (snd (handleKeyInput V key p)))"
proof (cases "status (state p) = Active")
  case True
  show ?thesis
    using True l letters_filled_letter_input[OF v True l, of key]
      letters_filled_backspace_input[OF v True l] letters_filled_submitGuess[OF l, of V]
    by (simp add: handleKeyInput_def)
next
  case False
  then show ?thesis using l by (simp add: handleKeyInput_def)
qed

lemma letters_filled_handleKeyInput_part_000:
  assumes v: "valid_state (state p)" and l: "letters_filled (state p)"
  shows "letters_filled (state (snd (handleKeyInput_part_000 V key p)))"
proof (cases "status (state p) = Active")
  case True
  show ?thesis
    using True l letters_filled_letter_input[OF v True l, of key]
      letters_filled_backspace_input[OF v True l] letters_filled_submitGuess_part_000[OF l, of V]
    by (simp add: handleKeyInput_part_000_def)
next
  case False
  then show ?thesis using l by (simp add: handleKeyInput_part_000_def)
qed

lemma reachable_handleKeys:
  "valid_state (state p) \<and> letters_filled (state p) \<Longrightarrow>
   valid_state (state (handleKeys V keys p)) \<and> letters_filled (state (handleKeys V keys p))"
  unfolding handleKeys_def
  by (induction keys arbitrary: p)
    (simp_all add: valid_state_handleKeyInput letters_filled_handleKeyInput)

lemma reachable_handleKeys_part_000:
  "valid_state (state p) \<and> letters_filled (state p) \<Longrightarrow>
   valid_state (state (handleKeys_part_000 V keys p)) \<and>
   letters_filled (state (handleKeys_part_000 V keys p))"
  unfolding handleKeys_part_000_def
  by (induction keys arbitrary: p)
    (simp_all add: valid_state_handleKeyInput_part_000 letters_filled_handleKeyInput_part_000)

lemma concat_upper_case_letters:
  "list_all upper_case_letter row \<Longrightarrow>
   length (concat row) = length row \<and> set (concat row) \<subseteq> set ''ABCDEFGHIJKLMNOPQRSTUVWXYZ''"
proof (induction row)
  case Nil
  show ?case by simp
next
  case (Cons cell row)
  from Cons.prems obtain c where "cell = [c]" and "c \<in> set ''ABCDEFGHIJKLMNOPQRSTUVWXYZ''"
    by (auto simp: upper_case_letter_def split: list.splits)
  with Cons show ?case by simp
qed

lemma full_row_is_a_word:
  assumes v: "valid_state s" and l: "letters_filled s" and act: "status s = Active"
    and full: "\<not> currentCol s < WORD_LENGTH"
  shows "length (concat (guesses s ! currentRow s)) = WORD_LENGTH \<and>
         set (concat (guesses s ! currentRow s)) \<subseteq> set ''ABCDEFGHIJKLMNOPQRSTUVWXYZ''"
proof -
  note d = valid_stateD[OF v]
  have r: "currentRow s < length (guesses s)"
    using d(1) d(7)[OF act] by simp
  have lr: "length (guesses s ! currentRow s) = WORD_LENGTH"
    using list_all_nth[OF d(3) r] .
  have "\<forall>c < length (guesses s ! currentRow s). upper_case_letter (guesses s ! currentRow s ! c)"
    using l act full lr by (simp add: letters_filled_def)
  then have "list_all upper_case_letter (guesses s ! currentRow s)"
    by (simp add: list_all_length)
  from concat_upper_case_letters[OF this] lr show ?thesis by simp
qed

lemma reachable_state_invariant:
  "valid_state (state (handleKeys V keys \<lparr>state = createNewState a, statusEl = m\<rparr>)) \<and>
   letters_filled (state (handleKeys V keys \<lparr>state = createNewState a, statusEl = m\<rparr>))"
  by (rule reachable_handleKeys) (simp add: valid_state_createNewState letters_filled_createNewState)

lemma reachable_state_invariant_part_000:
  "valid_state (state (handleKeys_part_000 V keys \<lparr>state = createNewState a, statusEl = m\<rparr>)) \<and>
   letters_filled (state (handleKeys_part_000 V keys \<lparr>state = createNewState a, statusEl = m\<rparr>))"
  by (rule reachable_handleKeys_part_000)
    (simp add: valid_state_createNewState letters_filled_createNewState)


end
